theory Spec2Isabelle
  imports Main "HOL-Library.Word"
begin

section \<open>Images, files and the Python runtime\<close>

text \<open>
  The scripts work on RGBA raster images held in PNG files. A channel is an unsigned
  byte, a pixel has four of them, and an image is its width, its height and a pixel
  for every position \<open>(x, y)\<close>; positions outside the image carry no meaning. Every
  image is kept in the form \<open>Image.open(path).convert('RGBA')\<close> gives it.
\<close>

type_synonym u8 = "8 word"

record rgba =
  red :: u8
  green :: u8
  blue :: u8
  alpha :: u8

record image =
  width :: nat
  height :: nat
  pixels :: "nat \<Rightarrow> nat \<Rightarrow> rgba"

text \<open>The exceptions of Python and of the imaging library that the scripts can meet.\<close>

datatype py_error = ValueError | OverflowError | FileNotFoundError | IndexError

text \<open>
  A file holds a PNG image or an ICO container; for the container the model keeps the
  image that was saved and the list of sizes that was asked for.
\<close>

datatype file_content = PNG image | ICO image "(nat \<times> nat) list"

type_synonym filesystem = "string \<rightharpoonup> file_content"

definition path_join :: "string \<Rightarrow> string \<Rightarrow> string" where
  \<comment> \<open>\<open>os.path.join\<close> of a directory without a trailing slash and a relative name\<close>
  "path_join d f = d @ ''/'' @ f"

definition exists_path :: "filesystem \<Rightarrow> string \<Rightarrow> bool" where
  "exists_path fs p = (fs p \<noteq> None)"

definition open_image :: "filesystem \<Rightarrow> string \<Rightarrow> py_error + image" where
  \<comment> \<open>\<open>Image.open(path).convert('RGBA')\<close>\<close>
  "open_image fs p =
     (case fs p of
        None \<Rightarrow> Inl FileNotFoundError
      | Some (PNG im) \<Rightarrow> Inr im
      | Some (ICO im szs) \<Rightarrow> Inr im)"

definition save_png :: "filesystem \<Rightarrow> string \<Rightarrow> image \<Rightarrow> filesystem" where
  "save_png fs p im = fs(p \<mapsto> PNG im)"

definition new_image :: "nat \<times> nat \<Rightarrow> rgba \<Rightarrow> image" where
  \<comment> \<open>\<open>Image.new('RGBA', size, color)\<close>\<close>
  "new_image sz c = \<lparr>width = fst sz, height = snd sz, pixels = (\<lambda>x y. c)\<rparr>"

definition transparent :: rgba where
  "transparent = \<lparr>red = 0, green = 0, blue = 0, alpha = 0\<rparr>"

definition white :: rgba where
  "white = \<lparr>red = 255, green = 255, blue = 255, alpha = 255\<rparr>"


subsection \<open>The imaging library\<close>

text \<open>
  Resampling is the imaging library's work. Its pixel arithmetic is a parameter of the
  model: a resampler gives, for a source image and a requested size, the pixel at every
  position of the result. What the model fixes is what the scripts rely on: the result
  has exactly the requested size, and a request for a width or height below 1 is
  refused with a \<open>ValueError\<close>.
\<close>

type_synonym resampler = "image \<Rightarrow> nat \<times> nat \<Rightarrow> nat \<Rightarrow> nat \<Rightarrow> rgba"

definition resize :: "resampler \<Rightarrow> image \<Rightarrow> nat \<times> nat \<Rightarrow> py_error + image" where
  \<comment> \<open>\<open>img.resize(size, Image.Resampling.LANCZOS)\<close>\<close>
  "resize rs img sz =
     (if fst sz < 1 \<or> snd sz < 1 then Inl ValueError
      else Inr \<lparr>width = fst sz, height = snd sz, pixels = rs img sz\<rparr>)"



definition nearest_neighbour :: resampler where
  "nearest_neighbour img sz x y =
     pixels img (x * width img div fst sz) (y * height img div snd sz)"

text \<open>
  Pasting through a mask mixes, channel by channel and alpha included, the pixel that
  is there with the pixel that comes in: the library's 8-bit blend is the rounded
  \<open>(in1 * (255 - mask) + in2 * mask) / 255\<close>. Only the positions inside the pasted
  box are touched.
\<close>

definition blend8 :: "u8 \<Rightarrow> u8 \<Rightarrow> u8 \<Rightarrow> u8" where
  "blend8 msk in1 in2 =
     (let tmp = unat in1 * (255 - unat msk) + unat in2 * unat msk + 128
      in of_nat ((tmp div 256 + tmp) div 256))"

definition blend_px :: "u8 \<Rightarrow> rgba \<Rightarrow> rgba \<Rightarrow> rgba" where
  "blend_px msk p q =
     \<lparr>red = blend8 msk (red p) (red q), green = blend8 msk (green p) (green q),
      blue = blend8 msk (blue p) (blue q), alpha = blend8 msk (alpha p) (alpha q)\<rparr>"


subsection \<open>Floating point\<close>

text \<open>
  A Python float is an IEEE double. The doubles the scripts compute with are written
  here as a natural number over a power of two, and rounding to the 53 significant bits
  of a double (to nearest, ties to even) is done on the numerator. The model is exact
  as long as no number leaves the range of the doubles; an integer beyond that range
  cannot be converted and raises \<open>OverflowError\<close>.
\<close>

fun bitlen :: "nat \<Rightarrow> nat" where
  "bitlen n = (if n = 0 then 0 else Suc (bitlen (n div 2)))"

declare bitlen.simps [simp del]

definition round53 :: "nat \<Rightarrow> nat" where
  "round53 n =
     (if bitlen n \<le> 53 then n
      else let e = bitlen n - 53; q = n div 2 ^ e; r = n mod 2 ^ e; h = 2 ^ (e - 1)
           in (if h < r \<or> (r = h \<and> odd q) then q + 1 else q) * 2 ^ e)"

definition int_times_float :: "nat \<Rightarrow> nat \<times> nat \<Rightarrow> py_error + nat" where
  \<comment> \<open>\<open>int(n * d)\<close> for an integer \<open>n\<close> and the double \<open>d = m / 2 ^ k\<close>\<close>
  "int_times_float n d =
     (case d of (m, k) \<Rightarrow>
        if 2 ^ 1024 \<le> round53 n then Inl OverflowError
        else Inr (round53 (round53 n * m) div 2 ^ k))"
section \<open>Theme recolorer (build/generate\_themed\_icons.py)\<close>

definition THEMES :: "(string \<times> string) list" where
  "THEMES =
     [(''midnight'', ''#5865f2''),
      (''aurora-glass'', ''#8b5cf6''),
      (''linear-minimal'', ''#3b82f6''),
      (''forest-deep'', ''#22c55e''),
      (''neon-cyber'', ''#f472b6''),
      (''golden-hour'', ''#d4a574''),
      (''abyssal'', ''#00d4aa''),
      (''celestial'', ''#ff6eb4''),
      (''ember'', ''#ff6b35'')]"

definition ICON_SIZES :: "(string \<times> nat) list" where
  "ICON_SIZES =
     [(''icon_16x16.png'', 16),
      (''icon_16x16@2x.png'', 32),
      (''icon_32x32.png'', 32),
      (''icon_32x32@2x.png'', 64),
      (''icon_128x128.png'', 128),
      (''icon_128x128@2x.png'', 256),
      (''icon_256x256.png'', 256),
      (''icon_256x256@2x.png'', 512),
      (''icon_512x512.png'', 512),
      (''icon_512x512@2x.png'', 1024)]"

definition hex_digit :: "char \<Rightarrow> nat option" where
  "hex_digit c =
     (let n = of_char c :: nat in
      if 48 \<le> n \<and> n \<le> 57 then Some (n - 48)
      else if 97 \<le> n \<and> n \<le> 102 then Some (n - 87)
      else if 65 \<le> n \<and> n \<le> 70 then Some (n - 55)
      else None)"

fun int16 :: "string \<Rightarrow> nat option" where
  "int16 [c] = hex_digit c"
| "int16 [c, d] =
     (case (hex_digit c, hex_digit d) of
        (Some a, Some b) \<Rightarrow> Some (16 * a + b)
      | _ \<Rightarrow> None)"
| "int16 _ = None"

text \<open>
  \<open>hex_to_rgb\<close> strips every leading \<open>#\<close> and reads the slices \<open>[0:2]\<close>, \<open>[2:4]\<close>
  and \<open>[4:6]\<close> in base 16. The model covers slices made of hexadecimal digits, as in
  every entry of \<open>THEMES\<close>; it gives \<open>None\<close> for an empty slice, where Python raises,
  and for the signed and padded spellings that Python's \<open>int\<close> also reads.
\<close>

definition hex_to_rgb :: "string \<Rightarrow> (nat \<times> nat \<times> nat) option" where
  "hex_to_rgb hex_color =
     (let h = dropWhile (\<lambda>c. c = CHR ''#'') hex_color in
      case (int16 (take 2 h), int16 (take 2 (drop 2 h)), int16 (take 2 (drop 4 h))) of
        (Some r, Some g, Some b) \<Rightarrow> Some (r, g, b)
      | _ \<Rightarrow> None)"

definition white_threshold :: u8 where
  "white_threshold = 200"

definition is_white :: "rgba \<Rightarrow> bool" where
  "is_white p = (red p > white_threshold \<and> green p > white_threshold \<and> blue p > white_threshold)"

definition is_transparent :: "rgba \<Rightarrow> bool" where
  "is_transparent p = (alpha p < 128)"

definition is_background :: "rgba \<Rightarrow> bool" where
  "is_background p = (\<not> is_white p \<and> \<not> is_transparent p)"

definition recolor_pixel :: "nat \<times> nat \<times> nat \<Rightarrow> rgba \<Rightarrow> rgba" where
  \<comment> \<open>the three masked assignments \<open>data[is_background, k] = new_k\<close> at one pixel\<close>
  "recolor_pixel new p =
     (case new of (new_r, new_g, new_b) \<Rightarrow>
        if is_background p
        then p\<lparr>red := of_nat new_r, green := of_nat new_g, blue := of_nat new_b\<rparr>
        else p)"

definition recolor_data :: "nat \<times> nat \<times> nat \<Rightarrow> image \<Rightarrow> image" where
  "recolor_data new img = img\<lparr>pixels := (\<lambda>x y. recolor_pixel new (pixels img x y))\<rparr>"

definition recolor_icon :: "filesystem \<Rightarrow> string \<Rightarrow> string \<Rightarrow> string \<Rightarrow> py_error + filesystem" where
  "recolor_icon fs source_path target_path new_bg_color =
     (case open_image fs source_path of
        Inl e \<Rightarrow> Inl e
      | Inr img \<Rightarrow>
          (case hex_to_rgb new_bg_color of
             None \<Rightarrow> Inl ValueError
           | Some new \<Rightarrow> Inr (save_png fs target_path (recolor_data new img))))"

text \<open>
  What running an external program gives: it ran and exited with a return code and an
  error text, or it could not be started at all (\<open>subprocess.run\<close> then raises an
  \<open>OSError\<close>). The packaging tool itself is a parameter of the model: a function
  from its argument list and the file system to its outcome and the file system it
  leaves behind.
\<close>

datatype proc_outcome = Exited int string | NotStarted

type_synonym tool = "string list \<Rightarrow> filesystem \<Rightarrow> proc_outcome \<times> filesystem"

datatype run_error = Raised py_error | CalledProcessError int | OSError

datatype themed_msg =
    Banner
  | ThemeHeader string string
  | CreatedFile string
  | WarningNotFound string
  | CreatedIcns string
  | ErrorIcns int
  | Done string

fun create_themed_loop ::
  "string \<Rightarrow> string \<Rightarrow> string \<Rightarrow> (string \<times> nat) list \<Rightarrow> filesystem \<times> themed_msg list
     \<Rightarrow> run_error + filesystem \<times> themed_msg list" where
  "create_themed_loop theme_color base_iconset_path iconset_path [] st = Inr st"
| "create_themed_loop theme_color base_iconset_path iconset_path ((filename, expected_size) # rest) (fs, out) =
     (let source_path = path_join base_iconset_path filename;
          target_path = path_join iconset_path filename
      in if exists_path fs source_path
         then (case recolor_icon fs source_path target_path theme_color of
                 Inl e \<Rightarrow> Inl (Raised e)
               | Inr fs' \<Rightarrow>
                   create_themed_loop theme_color base_iconset_path iconset_path rest
                     (fs', out @ [CreatedFile filename]))
         else create_themed_loop theme_color base_iconset_path iconset_path rest
                (fs, out @ [WarningNotFound filename]))"

definition create_themed_iconset ::
  "string \<Rightarrow> string \<Rightarrow> string \<Rightarrow> string \<Rightarrow> filesystem \<times> themed_msg list
     \<Rightarrow> run_error + string \<times> filesystem \<times> themed_msg list" where
  "create_themed_iconset theme_name theme_color base_iconset_path output_dir st =
     (let iconset_name = ''icon-'' @ theme_name @ ''.iconset'';
          iconset_path = path_join output_dir iconset_name
      in case create_themed_loop theme_color base_iconset_path iconset_path ICON_SIZES st of
           Inl e \<Rightarrow> Inl e
         | Inr st' \<Rightarrow> Inr (iconset_path, st'))"

fun replace_str :: "string \<Rightarrow> string \<Rightarrow> string \<Rightarrow> string" where
  \<comment> \<open>\<open>s.replace(old, new)\<close> for a non-empty \<open>old\<close>\<close>
  "replace_str old new [] = []"
| "replace_str old new (c # cs) =
     (if old \<noteq> [] \<and> take (length old) (c # cs) = old
      then new @ replace_str old new (drop (length old) (c # cs))
      else c # replace_str old new cs)"

definition basename :: "string \<Rightarrow> string" where
  "basename p = rev (takeWhile (\<lambda>c. c \<noteq> CHR ''/'') (rev p))"

text \<open>
  \<open>subprocess.run(args, check=True)\<close>: a non-zero return code raises
  \<open>CalledProcessError\<close>, a program that cannot be started raises an \<open>OSError\<close>.
\<close>

definition run_checked :: "tool \<Rightarrow> string list \<Rightarrow> filesystem \<Rightarrow> run_error option \<times> filesystem" where
  "run_checked t args fs =
     (case t args fs of
        (Exited rc err, fs') \<Rightarrow> (if rc = 0 then None else Some (CalledProcessError rc), fs')
      | (NotStarted, fs') \<Rightarrow> (Some OSError, fs))"

definition convert_iconset_to_icns ::
  "tool \<Rightarrow> string \<Rightarrow> filesystem \<times> themed_msg list
     \<Rightarrow> run_error + string option \<times> filesystem \<times> themed_msg list" where
  "convert_iconset_to_icns iconutil iconset_path st =
     (case st of (fs, out) \<Rightarrow>
        let icns_path = replace_str ''.iconset'' ''.icns'' iconset_path in
        case run_checked iconutil [''iconutil'', ''-c'', ''icns'', iconset_path] fs of
          (None, fs') \<Rightarrow> Inr (Some icns_path, fs', out @ [CreatedIcns (basename icns_path)])
        | (Some (CalledProcessError rc), fs') \<Rightarrow> Inr (None, fs', out @ [ErrorIcns rc])
        | (Some e, fs') \<Rightarrow> Inl e)"

fun themes_loop ::
  "tool \<Rightarrow> string \<Rightarrow> string \<Rightarrow> (string \<times> string) list \<Rightarrow> filesystem \<times> themed_msg list
     \<Rightarrow> run_error + filesystem \<times> themed_msg list" where
  "themes_loop iconutil base_iconset output_dir [] st = Inr st"
| "themes_loop iconutil base_iconset output_dir ((theme_name, theme_color) # rest) (fs, out) =
     (case create_themed_iconset theme_name theme_color base_iconset output_dir
             (fs, out @ [ThemeHeader theme_name theme_color]) of
        Inl e \<Rightarrow> Inl e
      | Inr (iconset_path, st') \<Rightarrow>
          (case convert_iconset_to_icns iconutil iconset_path st' of
             Inl e \<Rightarrow> Inl e
           | Inr (icns, st'') \<Rightarrow> themes_loop iconutil base_iconset output_dir rest st''))"

definition themed_main :: "tool \<Rightarrow> filesystem \<Rightarrow> run_error + filesystem \<times> themed_msg list" where
  \<comment> \<open>\<open>main\<close> of generate\_themed\_icons.py\<close>
  "themed_main iconutil fs =
     (let base_path = ''/Users/cory.naegle/ArborChat/build'';
          base_iconset = path_join base_path ''icon.iconset'';
          output_dir = path_join base_path ''themed-icons''
      in case themes_loop iconutil base_iconset output_dir THEMES (fs, [Banner]) of
           Inl e \<Rightarrow> Inl e
         | Inr (fs', out) \<Rightarrow> Inr (fs', out @ [Done output_dir]))"


text \<open>
  What a run's output says about its progress: the themes whose header was printed, and
  the lines that report a conversion, in the order printed.
\<close>

fun progress :: "themed_msg \<Rightarrow> themed_msg list" where
  "progress (ThemeHeader n c) = [ThemeHeader n c]"
| "progress (CreatedIcns p) = [CreatedIcns p]"
| "progress (ErrorIcns rc) = [ErrorIcns rc]"
| "progress m = []"

fun conversion_report :: "themed_msg \<Rightarrow> bool" where
  "conversion_report (CreatedIcns p) = True"
| "conversion_report (ErrorIcns rc) = (rc \<noteq> 0)"
| "conversion_report m = False"

definition starts :: "tool \<Rightarrow> bool" where
  \<comment> \<open>the tool is installed: every call runs and exits with some return code\<close>
  "starts t = (\<forall>args fs. fst (t args fs) \<noteq> NotStarted)"

definition failing_tool :: "int \<Rightarrow> string \<Rightarrow> tool" where
  \<comment> \<open>a tool that changes nothing and exits with the given code and error text\<close>
  "failing_tool rc err args fs = (Exited rc err, fs)"

definition absent_tool :: tool where
  \<comment> \<open>the tool is not installed: no call can be started\<close>
  "absent_tool args fs = (NotStarted, fs)"

section \<open>Padding normalizer (build/add\_icon\_padding.py)\<close>

definition CONTENT_RATIO :: "nat \<times> nat" where
  \<comment> \<open>the double nearest to 0.84, \<open>0x1.ae147ae147ae1p-1\<close>\<close>
  "CONTENT_RATIO = (7566047373982433, 53)"

definition content_size :: "nat \<Rightarrow> py_error + nat" where
  \<comment> \<open>\<open>int(canvas_size * CONTENT_RATIO)\<close>\<close>
  "content_size canvas_size = int_times_float canvas_size CONTENT_RATIO"


section \<open>Iconset completer (build/prepare\_and\_generate\_icons.py)\<close>

definition BASE_DIR :: string where
  "BASE_DIR = ''/Users/cory.naegle/ArborChat/build''"

definition ICONSET_DIR :: string where
  "ICONSET_DIR = path_join BASE_DIR ''icon.iconset''"

definition REQUIRED_SIZES :: "(string \<times> nat) list" where
  "REQUIRED_SIZES =
     [(''icon_16x16.png'', 16),
      (''icon_16x16@2x.png'', 32),
      (''icon_32x32.png'', 32),
      (''icon_32x32@2x.png'', 64),
      (''icon_128x128.png'', 128),
      (''icon_128x128@2x.png'', 256),
      (''icon_256x256.png'', 256),
      (''icon_256x256@2x.png'', 512),
      (''icon_512x512.png'', 512),
      (''icon_512x512@2x.png'', 1024)]"

datatype prepare_msg =
    Preparing
  | UsingSource string nat
  | ErrorNoSource
  | Generating
  | WarningUpscaling nat nat
  | Created string nat

text \<open>
  The first loop of \<open>prepare_iconset\<close> runs over the required list sorted by falling
  size (Python's \<open>sorted\<close> is stable, as \<open>sort_key\<close> is) and stops with \<open>break\<close>
  at the first file it accepts. Its state is \<open>source_img\<close>, \<open>source_size\<close> and what
  has been printed.
\<close>

fun find_source ::
  "filesystem \<Rightarrow> (string \<times> nat) list \<Rightarrow> image option \<times> nat \<times> prepare_msg list
     \<Rightarrow> py_error + image option \<times> nat \<times> prepare_msg list" where
  "find_source fs [] st = Inr st"
| "find_source fs ((filename, sz) # rest) (source_img, source_sz, out) =
     (let path = path_join ICONSET_DIR filename
      in if exists_path fs path
         then (case open_image fs path of
                 Inl e \<Rightarrow> Inl e
               | Inr img \<Rightarrow>
                   if source_sz \<le> width img
                   then Inr (Some img, width img, out @ [UsingSource filename (width img)])
                   else find_source fs rest (source_img, source_sz, out))
         else find_source fs rest (source_img, source_sz, out))"

fun generate_loop ::
  "resampler \<Rightarrow> image \<Rightarrow> nat \<Rightarrow> (string \<times> nat) list \<Rightarrow> filesystem \<times> prepare_msg list
     \<Rightarrow> py_error + filesystem \<times> prepare_msg list" where
  "generate_loop rs source_img source_sz [] st = Inr st"
| "generate_loop rs source_img source_sz ((filename, sz) # rest) (fs, out) =
     (let target_path = path_join ICONSET_DIR filename
      in if sz \<le> source_sz
         then (case resize rs source_img (sz, sz) of
                 Inl e \<Rightarrow> Inl e
               | Inr resized \<Rightarrow>
                   generate_loop rs source_img source_sz rest
                     (save_png fs target_path resized, out @ [Created filename sz]))
         else (case resize rs source_img (sz, sz) of
                 Inl e \<Rightarrow> Inl e
               | Inr resized \<Rightarrow>
                   generate_loop rs source_img source_sz rest
                     (save_png fs target_path resized,
                      out @ [WarningUpscaling sz source_sz, Created filename sz])))"

definition prepare_iconset ::
  "resampler \<Rightarrow> filesystem \<Rightarrow> py_error + bool \<times> filesystem \<times> prepare_msg list" where
  "prepare_iconset rs fs =
     (case find_source fs (sort_key (\<lambda>x. - int (snd x)) REQUIRED_SIZES) (None, 0, [Preparing]) of
        Inl e \<Rightarrow> Inl e
      | Inr (source_img, source_sz, out) \<Rightarrow>
          (case source_img of
             None \<Rightarrow> Inr (False, fs, out @ [ErrorNoSource])
           | Some img \<Rightarrow>
               (case generate_loop rs img source_sz REQUIRED_SIZES (fs, out @ [Generating]) of
                  Inl e \<Rightarrow> Inl e
                | Inr (fs', out') \<Rightarrow> Inr (True, fs', out'))))"

section \<open>Icon synthesizer (scripts/generate-icon.py)\<close>

text \<open>
  The glyph is drawn with the imaging library's rasterisers, and the leaves are placed
  with trigonometry on floats. Both are parameters of the model. The float operations
  work on a type \<open>'f\<close> of doubles; a coordinate handed to a rasteriser is a Python
  integer or a float. A rasteriser says, for the size of the image and the coordinates
  of a shape, which pixel positions the shape covers; drawing sets the covered pixels to
  the fill colour. The rasterisers are taken to accept every shape the script draws.
\<close>

datatype 'f num = PyInt int | PyFloat 'f

type_synonym 'f point = "'f num \<times> 'f num"

record 'f pil =
  f_of_int :: "int \<Rightarrow> 'f"
  f_add :: "'f \<Rightarrow> 'f \<Rightarrow> 'f"
  f_sub :: "'f \<Rightarrow> 'f \<Rightarrow> 'f"
  f_mul :: "'f \<Rightarrow> 'f \<Rightarrow> 'f"
  f_div :: "'f \<Rightarrow> 'f \<Rightarrow> 'f"
  f_cos :: "'f \<Rightarrow> 'f"
  f_sin :: "'f \<Rightarrow> 'f"
  f_radians :: "'f \<Rightarrow> 'f"
  f_pi :: "'f"
  polygon :: "nat \<times> nat \<Rightarrow> 'f point list \<Rightarrow> nat \<Rightarrow> nat \<Rightarrow> bool"
  line :: "nat \<times> nat \<Rightarrow> 'f point list \<Rightarrow> int \<Rightarrow> nat \<Rightarrow> nat \<Rightarrow> bool"
  ellipse :: "nat \<times> nat \<Rightarrow> 'f point list \<Rightarrow> nat \<Rightarrow> nat \<Rightarrow> bool"
  rounded_rectangle :: "nat \<times> nat \<Rightarrow> 'f point list \<Rightarrow> int \<Rightarrow> nat \<Rightarrow> nat \<Rightarrow> bool"

text \<open>A single-channel image, mode \<open>L\<close>, as the corner mask is.\<close>

record gray =
  g_width :: nat
  g_height :: nat
  g_pixels :: "nat \<Rightarrow> nat \<Rightarrow> u8"

definition new_gray :: "nat \<times> nat \<Rightarrow> u8 \<Rightarrow> gray" where
  "new_gray sz v = \<lparr>g_width = fst sz, g_height = snd sz, g_pixels = (\<lambda>x y. v)\<rparr>"

definition fill_gray :: "gray \<Rightarrow> (nat \<Rightarrow> nat \<Rightarrow> bool) \<Rightarrow> u8 \<Rightarrow> gray" where
  "fill_gray m cover v = m\<lparr>g_pixels := (\<lambda>x y. if cover x y then v else g_pixels m x y)\<rparr>"

definition fill_shape :: "image \<Rightarrow> (nat \<Rightarrow> nat \<Rightarrow> bool) \<Rightarrow> rgba \<Rightarrow> image" where
  "fill_shape img cover c = img\<lparr>pixels := (\<lambda>x y. if cover x y then c else pixels img x y)\<rparr>"

definition composite :: "image \<Rightarrow> image \<Rightarrow> gray \<Rightarrow> py_error + image" where
  \<comment> \<open>\<open>Image.composite(image1, image2, mask)\<close>: \<open>image1\<close> where the mask is 255\<close>
  "composite image1 image2 msk =
     (if width image1 \<noteq> width image2 \<or> height image1 \<noteq> height image2
         \<or> g_width msk \<noteq> width image1 \<or> g_height msk \<noteq> height image1
      then Inl ValueError
      else Inr (image2\<lparr>pixels := (\<lambda>x y.
             blend_px (g_pixels msk x y) (pixels image2 x y) (pixels image1 x y))\<rparr>))"

definition THEME_COLOR :: "u8 \<times> u8 \<times> u8" where
  "THEME_COLOR = (88, 101, 242)"

definition opaque :: "u8 \<times> u8 \<times> u8 \<Rightarrow> rgba" where
  \<comment> \<open>\<open>color + (255,)\<close>\<close>
  "opaque c = (case c of (r, g, b) \<Rightarrow> \<lparr>red = r, green = g, blue = b, alpha = 255\<rparr>)"

text \<open>
  The arithmetic of the local functions \<open>s\<close> and \<open>sw\<close> stays within multiples of a
  power of two, so it is computed exactly: \<open>(val - 256) * 0.75 + 256\<close> in quarters,
  \<open>scale = size / 512\<close> in 512ths, their product in 2048ths, each step rounded to a
  double; \<open>int\<close> then truncates towards zero.
\<close>

definition sround53 :: "int \<Rightarrow> int" where
  "sround53 i = (if i < 0 then - int (round53 (nat (- i))) else int (round53 (nat i)))"

definition trunc_div :: "int \<Rightarrow> int \<Rightarrow> int" where
  "trunc_div a b = (if a < 0 then - ((- a) div b) else a div b)"

definition s_coord :: "nat \<Rightarrow> int \<Rightarrow> int" where
  \<comment> \<open>the local function \<open>s\<close> of \<open>create_arbor_icon\<close>\<close>
  "s_coord sz val =
     (let centered = sround53 (sround53 (sround53 (val - 256) * 3) + 1024);
          scale = int (round53 sz)
      in trunc_div (sround53 (centered * scale)) 2048)"

definition sw_width :: "nat \<Rightarrow> int \<Rightarrow> int" where
  \<comment> \<open>the local function \<open>sw\<close> of \<open>create_arbor_icon\<close>\<close>
  "sw_width sz val =
     (let scale = int (round53 sz)
      in max 1 (trunc_div (sround53 (sround53 (sround53 val * 3) * scale)) 2048))"

definition ipoint :: "nat \<Rightarrow> int \<Rightarrow> int \<Rightarrow> 'f point" where
  \<comment> \<open>the pair \<open>(s(x), s(y))\<close>\<close>
  "ipoint sz x y = (PyInt (s_coord sz x), PyInt (s_coord sz y))"

definition ellipse_points ::
  "('f, 'a) pil_scheme \<Rightarrow> int \<times> int \<Rightarrow> int \<Rightarrow> int \<Rightarrow> int \<Rightarrow> 'f point list" where
  \<comment> \<open>the points \<open>draw_ellipse_rotated\<close> collects, for \<open>i\<close> in \<open>range(36)\<close>\<close>
  "ellipse_points lib center rx ry angle =
     map (\<lambda>i.
        let t = f_div lib (f_mul lib (f_mul lib (f_of_int lib 2) (f_pi lib)) (f_of_int lib i))
                  (f_of_int lib 36);
            x = f_mul lib (f_of_int lib rx) (f_cos lib t);
            y = f_mul lib (f_of_int lib ry) (f_sin lib t);
            rad = f_radians lib (f_of_int lib angle);
            x_rot = f_sub lib (f_mul lib x (f_cos lib rad)) (f_mul lib y (f_sin lib rad));
            y_rot = f_add lib (f_mul lib x (f_sin lib rad)) (f_mul lib y (f_cos lib rad))
        in (PyFloat (f_add lib (f_of_int lib (fst center)) x_rot),
            PyFloat (f_add lib (f_of_int lib (snd center)) y_rot)))
       (map int [0..<36])"

definition draw_ellipse_rotated ::
  "('f, 'a) pil_scheme \<Rightarrow> image \<Rightarrow> int \<times> int \<Rightarrow> int \<Rightarrow> int \<Rightarrow> int \<Rightarrow> rgba \<Rightarrow> image" where
  "draw_ellipse_rotated lib img center rx ry angle fill =
     fill_shape img (polygon lib (width img, height img) (ellipse_points lib center rx ry angle)) fill"

definition branch_levels :: "(int \<times> int \<times> int \<times> int) list" where
  \<comment> \<open>\<open>(y_center, x_spread, droop, width)\<close>\<close>
  "branch_levels =
     [(340, 96, 20, 8), (300, 116, 10, 7), (260, 136, 0, 6),
      (220, 126, -10, 5), (180, 106, -25, 4), (140, 86, -30, 3)]"

definition leaf_data :: "(int \<times> int \<times> int \<times> int \<times> int) list" where
  \<comment> \<open>\<open>(cx, cy, rx, ry, angle)\<close>\<close>
  "leaf_data =
     [(160, 355, 12, 8, -30), (180, 340, 10, 6, -20),
      (352, 355, 12, 8, 30), (332, 340, 10, 6, 20),
      (140, 305, 14, 9, -25), (165, 290, 11, 7, -15),
      (372, 305, 14, 9, 25), (347, 290, 11, 7, 15),
      (120, 255, 15, 10, -20), (150, 242, 12, 8, -10),
      (392, 255, 15, 10, 20), (362, 242, 12, 8, 10),
      (130, 205, 14, 9, -15), (160, 192, 11, 7, -5),
      (382, 205, 14, 9, 15), (352, 192, 11, 7, 5),
      (150, 150, 13, 8, -10), (180, 155, 10, 6, 0),
      (362, 150, 13, 8, 10), (332, 155, 10, 6, 0),
      (170, 105, 12, 7, -5), (200, 95, 9, 5, 5),
      (342, 105, 12, 7, 5), (312, 95, 9, 5, -5)]"

definition draw_branches :: "('f, 'a) pil_scheme \<Rightarrow> nat \<Rightarrow> image \<Rightarrow> image" where
  \<comment> \<open>the loop over \<open>branch_levels\<close>: the left branch, then the right one\<close>
  "draw_branches lib sz img0 =
     foldl (\<lambda>img (y, spread, droop, w).
        let left = fill_shape img
              (line lib (width img, height img)
                 [ipoint sz 256 y, ipoint sz (256 - spread div 2) (y - 20 + droop),
                  ipoint sz (256 - spread) (y + droop)]
                 (sw_width sz w)) white
        in fill_shape left
              (line lib (width left, height left)
                 [ipoint sz 256 y, ipoint sz (256 + spread div 2) (y - 20 + droop),
                  ipoint sz (256 + spread) (y + droop)]
                 (sw_width sz w)) white)
       img0 branch_levels"

definition draw_leaves :: "('f, 'a) pil_scheme \<Rightarrow> nat \<Rightarrow> image \<Rightarrow> image" where
  \<comment> \<open>the loop over \<open>leaf_data\<close>\<close>
  "draw_leaves lib sz img0 =
     foldl (\<lambda>img (cx, cy, rx, ry, angle).
        draw_ellipse_rotated lib img (s_coord sz cx, s_coord sz cy)
          (sw_width sz (rx * 2)) (sw_width sz (ry * 2)) angle white)
       img0 leaf_data"

datatype synth_msg =
    CreatedIcon string
  | IcnsCreated string
  | IconutilError string
  | IcoCreated string
  | IcoFailed py_error
  | Complete

definition create_arbor_icon ::
  "('f, 'a) pil_scheme \<Rightarrow> nat \<Rightarrow> string \<Rightarrow> filesystem \<times> synth_msg list
     \<Rightarrow> py_error + image \<times> filesystem \<times> synth_msg list" where
  "create_arbor_icon lib sz output_path st =
     (case st of (fs, out) \<Rightarrow>
      let img = new_image (sz, sz) (opaque THEME_COLOR) in
      case int_times_float sz (7926335344172073, 55) of
        Inl e \<Rightarrow> Inl e
      | Inr corner_radius \<Rightarrow>
          let msk = fill_gray (new_gray (sz, sz) 0)
                      (rounded_rectangle lib (sz, sz)
                         [(PyInt 0, PyInt 0), (PyInt (int sz - 1), PyInt (int sz - 1))]
                         (int corner_radius)) 255;
              dims = (sz, sz);
              trunk = fill_shape img
                 (polygon lib dims
                    [ipoint sz 248 480, ipoint sz 248 320, ipoint sz 264 320, ipoint sz 264 480])
                 white;
              flare_left = fill_shape trunk
                 (polygon lib dims [ipoint sz 230 480, ipoint sz 248 450, ipoint sz 248 480]) white;
              flare_right = fill_shape flare_left
                 (polygon lib dims [ipoint sz 264 480, ipoint sz 264 450, ipoint sz 282 480]) white;
              widening = fill_shape flare_right
                 (polygon lib dims
                    [ipoint sz 244 380, ipoint sz 244 320, ipoint sz 256 300,
                     ipoint sz 268 320, ipoint sz 268 380, ipoint sz 256 395])
                 white;
              branches = draw_branches lib sz widening;
              crown = fill_shape branches
                 (ellipse lib dims [ipoint sz 246 55, ipoint sz 266 105]) white;
              leaves = draw_leaves lib sz crown
          in case composite leaves (new_image (sz, sz) transparent) msk of
               Inl e \<Rightarrow> Inl e
             | Inr final \<Rightarrow>
                 Inr (final, save_png fs output_path final, out @ [CreatedIcon output_path]))"

fun str_nat :: "nat \<Rightarrow> string" where
  \<comment> \<open>the decimal digits of a number, as an f-string prints it\<close>
  "str_nat n =
     (if n < 10 then [char_of (48 + n)]
      else str_nat (n div 10) @ [char_of (48 + n mod 10)])"

declare str_nat.simps [simp del]

definition icon_specs :: "(nat \<times> string) list" where
  "icon_specs =
     [(16, ''icon_16x16.png''),
      (32, ''icon_16x16@2x.png''),
      (32, ''icon_32x32.png''),
      (64, ''icon_32x32@2x.png''),
      (128, ''icon_128x128.png''),
      (256, ''icon_128x128@2x.png''),
      (256, ''icon_256x256.png''),
      (512, ''icon_256x256@2x.png''),
      (512, ''icon_512x512.png''),
      (1024, ''icon_512x512@2x.png'')]"

definition ico_sizes :: "nat list" where
  "ico_sizes = [16, 32, 48, 64, 128, 256]"

fun specs_loop ::
  "('f, 'a) pil_scheme \<Rightarrow> string \<Rightarrow> (nat \<times> string) list \<Rightarrow> filesystem \<times> synth_msg list
     \<Rightarrow> py_error + filesystem \<times> synth_msg list" where
  "specs_loop lib iconset_dir [] st = Inr st"
| "specs_loop lib iconset_dir ((sz, filename) # rest) st =
     (case create_arbor_icon lib sz (path_join iconset_dir filename) st of
        Inl e \<Rightarrow> Inl e
      | Inr (img, st') \<Rightarrow> specs_loop lib iconset_dir rest st')"

definition temp_path :: "string \<Rightarrow> nat \<Rightarrow> string" where
  "temp_path build_dir sz = path_join build_dir (''temp_ico_'' @ str_nat sz @ ''.png'')"

text \<open>
  The body of the \<open>try\<close> block can be left by an exception at any point; what was
  written and printed before stays. The loop therefore gives back the exception, if any,
  together with the state it reached.
\<close>

fun ico_loop ::
  "('f, 'a) pil_scheme \<Rightarrow> string \<Rightarrow> nat list \<Rightarrow> image list \<times> filesystem \<times> synth_msg list
     \<Rightarrow> py_error option \<times> image list \<times> filesystem \<times> synth_msg list" where
  "ico_loop lib build_dir [] st = (None, st)"
| "ico_loop lib build_dir (sz # rest) (ico_images, fs, out) =
     (case create_arbor_icon lib sz (temp_path build_dir sz) (fs, out) of
        Inl e \<Rightarrow> (Some e, ico_images, fs, out)
      | Inr (img, fs', out') \<Rightarrow>
          (case open_image fs' (temp_path build_dir sz) of
             Inl e \<Rightarrow> (Some e, ico_images, fs', out')
           | Inr opened \<Rightarrow> ico_loop lib build_dir rest (ico_images @ [opened], fs', out')))"

definition create_ico ::
  "('f, 'a) pil_scheme \<Rightarrow> string \<Rightarrow> filesystem \<times> synth_msg list \<Rightarrow> filesystem \<times> synth_msg list" where
  \<comment> \<open>the \<open>try\<close> ... \<open>except Exception\<close> block of \<open>main\<close>\<close>
  "create_ico lib build_dir st =
     (case ico_loop lib build_dir ico_sizes ([], st) of
        (Some e, ico_images, fs, out) \<Rightarrow> (fs, out @ [IcoFailed e])
      | (None, ico_images, fs, out) \<Rightarrow>
          (case ico_images of
             [] \<Rightarrow> (fs, out @ [IcoFailed IndexError])
           | first # others \<Rightarrow>
               let ico_path = path_join build_dir ''icon.ico'';
                   saved = fs(ico_path \<mapsto> ICO first (map (\<lambda>s. (s, s)) ico_sizes))
               in (foldl (\<lambda>f sz. f(temp_path build_dir sz := None)) saved ico_sizes,
                   out @ [IcoCreated ico_path])))"

text \<open>
  \<open>subprocess.run(args, capture_output=True, text=True)\<close> without \<open>check\<close>: the
  return code and the error text come back; a program that cannot be started raises.
\<close>

definition run_captured ::
  "tool \<Rightarrow> string list \<Rightarrow> filesystem \<Rightarrow> run_error + int \<times> string \<times> filesystem" where
  "run_captured t args fs =
     (case t args fs of
        (Exited rc err, fs') \<Rightarrow> Inr (rc, err, fs')
      | (NotStarted, fs') \<Rightarrow> Inl OSError)"

definition synth_main ::
  "('f, 'a) pil_scheme \<Rightarrow> tool \<Rightarrow> string \<Rightarrow> filesystem \<Rightarrow> run_error + filesystem \<times> synth_msg list" where
  \<comment> \<open>\<open>main\<close> of generate-icon.py\<close>
  "synth_main lib iconutil project_root fs =
     (let build_dir = path_join project_root ''build'';
          iconset_dir = path_join build_dir ''icon.iconset''
      in case specs_loop lib iconset_dir icon_specs (fs, []) of
           Inl e \<Rightarrow> Inl (Raised e)
         | Inr (fs1, out1) \<Rightarrow>
             let icns_path = path_join build_dir ''icon.icns'' in
             (case run_captured iconutil
                     [''iconutil'', ''-c'', ''icns'', iconset_dir, ''-o'', icns_path] fs1 of
                Inl e \<Rightarrow> Inl e
              | Inr (returncode, stderr, fs2) \<Rightarrow>
                  let out2 = out1 @ [if returncode = 0 then IcnsCreated icns_path
                                     else IconutilError stderr];
                      png_path = path_join build_dir ''icon.png''
                  in (case create_arbor_icon lib 512 png_path (fs2, out2) of
                        Inl e \<Rightarrow> Inl (Raised e)
                      | Inr (img, st3) \<Rightarrow>
                          (case create_ico lib build_dir st3 of
                             (fs4, out4) \<Rightarrow> Inr (fs4, out4 @ [Complete])))))"

definition blank_pil :: "int pil" where
  \<comment> \<open>a stand-in for the library in examples: integer arithmetic, shapes that cover nothing\<close>
  "blank_pil =
     \<lparr>f_of_int = (\<lambda>i. i), f_add = (+), f_sub = (-), f_mul = (*), f_div = (div),
      f_cos = (\<lambda>x. 1), f_sin = (\<lambda>x. 0), f_radians = (\<lambda>x. 0), f_pi = 3,
      polygon = (\<lambda>sz pts x y. False), line = (\<lambda>sz pts w x y. False),
      ellipse = (\<lambda>sz pts x y. False), rounded_rectangle = (\<lambda>sz pts r x y. False)\<rparr>"

section \<open>Facts about the imaging primitives and the float model\<close>

lemma div255_low: "n \<le> 128 \<Longrightarrow> (n * 255 + 128) div 256 = (n::nat)"
  by (rule div_nat_eqI) simp_all

lemma div255_high: "128 < n \<Longrightarrow> n < 256 \<Longrightarrow> (n * 255 + 128) div 256 = (n::nat) - 1"
  by (rule div_nat_eqI) simp_all

lemma div255_exact: "n < 256 \<Longrightarrow> ((n * 255 + 128) div 256 + (n * 255 + 128)) div 256 = (n::nat)"
proof (cases "n \<le> 128")
  case True
  then show ?thesis by (simp add: div255_low)
next
  case False
  assume "n < 256"
  with False show ?thesis by (simp add: div255_high)
qed

lemma unat_u8_lt: "unat (w :: u8) < 256"
  using unsigned_less [of w, where ?'a = nat] by simp

lemma blend8_0: "blend8 0 d s = d"
  using div255_exact [OF unat_u8_lt [of d]] by (simp add: blend8_def Let_def)


lemma blend_px_0: "blend_px 0 p q = p"
  by (simp add: blend_px_def blend8_0)



lemma bitlen_0: "bitlen 0 = 0" by (simp add: bitlen.simps)

lemma bitlen_upper: "n < 2 ^ bitlen n"
proof (induction n rule: bitlen.induct)
  case (1 n)
  show ?case
  proof (cases "n = 0")
    case True
    then show ?thesis by (simp add: bitlen.simps)
  next
    case False
    with 1 have "n div 2 < 2 ^ bitlen (n div 2)" by simp
    then have "n < 2 * 2 ^ bitlen (n div 2)" by linarith
    with False show ?thesis by (subst bitlen.simps) simp
  qed
qed

lemma bitlen_lower: "n \<noteq> 0 \<Longrightarrow> 2 ^ (bitlen n - 1) \<le> n"
proof (induction n rule: bitlen.induct)
  case (1 n)
  show ?case
  proof (cases "n div 2 = 0")
    case True
    with 1(2) have "n = 1" by linarith
    then show ?thesis by (simp add: bitlen.simps)
  next
    case False
    with 1 have ih: "2 ^ (bitlen (n div 2) - 1) \<le> n div 2" by simp
    from False have "bitlen (n div 2) \<noteq> 0" by (subst bitlen.simps) simp
    then have "(2::nat) ^ bitlen (n div 2) = 2 * 2 ^ (bitlen (n div 2) - 1)"
      by (cases "bitlen (n div 2)") simp_all
    with ih have "2 ^ bitlen (n div 2) \<le> n" by linarith
    with 1(2) show ?thesis by (subst bitlen.simps) simp
  qed
qed

lemma bitlen_le: "n < 2 ^ k \<Longrightarrow> bitlen n \<le> k"
proof (cases "n = 0")
  case True
  then show ?thesis by (simp add: bitlen_0)
next
  case False
  assume "n < 2 ^ k"
  with bitlen_lower [OF False] have "(2::nat) ^ (bitlen n - 1) < 2 ^ k" by linarith
  then have "bitlen n - 1 < k" by simp
  then show ?thesis by linarith
qed

lemma round53_small: "n < 2 ^ 53 \<Longrightarrow> round53 n = n"
  by (simp add: round53_def bitlen_le)

lemma round53_le: "round53 n \<le> n + n div 2 ^ 53"
proof (cases "bitlen n \<le> 53")
  case True
  then show ?thesis by (simp add: round53_def)
next
  case False
  define e where "e = bitlen n - 53"
  define q where "q = n div 2 ^ e"
  define r where "r = n mod 2 ^ e"
  define h where "h = (2::nat) ^ (e - 1)"
  from False have e: "1 \<le> e" by (simp add: e_def)
  then have he: "2 * h = 2 ^ e" unfolding h_def by (cases e) simp_all
  have n: "n = q * 2 ^ e + r" unfolding q_def r_def by (rule div_mult_mod_eq [symmetric])
  have "bitlen 0 = 0" by (simp add: bitlen.simps)
  with False have "n \<noteq> 0" by (cases "n = 0") simp_all
  then have "2 ^ (bitlen n - 1) \<le> n" by (rule bitlen_lower)
  moreover from False have "bitlen n - 1 = (e - 1) + 53" by (simp add: e_def)
  ultimately have "h * 2 ^ 53 \<le> n" by (simp add: h_def power_add)
  then have hn: "h \<le> n div 2 ^ 53" by (simp add: less_eq_div_iff_mult_less_eq)
  have "round53 n = (if h < r \<or> (r = h \<and> odd q) then q + 1 else q) * 2 ^ e"
    using False by (simp add: round53_def Let_def e_def q_def r_def h_def)
  also have "\<dots> \<le> n + h"
  proof (cases "h < r \<or> (r = h \<and> odd q)")
    case True
    then have "h \<le> r" by auto
    have "(if h < r \<or> (r = h \<and> odd q) then q + 1 else q) * 2 ^ e = (q + 1) * 2 ^ e"
      using True by (simp only: if_P if_True)
    also have "\<dots> = q * 2 ^ e + 2 * h" using he by (simp add: algebra_simps)
    also have "\<dots> \<le> q * 2 ^ e + r + h" using \<open>h \<le> r\<close> by simp
    finally show ?thesis using n by simp
  next
    case False
    then have "(if h < r \<or> (r = h \<and> odd q) then q + 1 else q) * 2 ^ e = q * 2 ^ e"
      by (simp only: if_not_P if_False)
    then show ?thesis using n by simp
  qed
  finally show ?thesis using hn by linarith
qed





lemma round53_ge: "n \<le> round53 n + n div 2 ^ 53"
proof (cases "bitlen n \<le> 53")
  case True
  then show ?thesis by (simp add: round53_def)
next
  case False
  define e where "e = bitlen n - 53"
  define q where "q = n div 2 ^ e"
  define r where "r = n mod 2 ^ e"
  define h where "h = (2::nat) ^ (e - 1)"
  from False have e: "1 \<le> e" by (simp add: e_def)
  then have he: "2 * h = 2 ^ e" unfolding h_def by (cases e) simp_all
  have n: "n = q * 2 ^ e + r" unfolding q_def r_def by (rule div_mult_mod_eq [symmetric])
  have "bitlen 0 = 0" by (simp add: bitlen.simps)
  with False have "n \<noteq> 0" by (cases "n = 0") simp_all
  then have "2 ^ (bitlen n - 1) \<le> n" by (rule bitlen_lower)
  moreover from False have "bitlen n - 1 = (e - 1) + 53" by (simp add: e_def)
  ultimately have "h * 2 ^ 53 \<le> n" by (simp add: h_def power_add)
  then have hn: "h \<le> n div 2 ^ 53" by (simp add: less_eq_div_iff_mult_less_eq)
  have rd: "round53 n = (if h < r \<or> (r = h \<and> odd q) then q + 1 else q) * 2 ^ e"
    using False by (simp add: round53_def Let_def e_def q_def r_def h_def)
  have "n \<le> round53 n + h"
  proof (cases "h < r \<or> (r = h \<and> odd q)")
    case True
    have "r < 2 ^ e" unfolding r_def by simp
    then have "n \<le> (q + 1) * 2 ^ e" using n by (simp add: algebra_simps)
    moreover have "round53 n = (q + 1) * 2 ^ e"
      unfolding rd using True by (simp only: if_P if_True)
    ultimately show ?thesis by simp
  next
    case False
    then have "r \<le> h" by auto
    moreover have "round53 n = q * 2 ^ e"
      unfolding rd using False by (simp only: if_not_P if_False)
    ultimately show ?thesis using n by simp
  qed
  with hn show ?thesis by linarith
qed


lemma round53_exact_multiple:
  assumes k1: "1 \<le> k" and k2: "k < 2 ^ 44"
  shows "round53 (k * 189151184349560825) = 21 * k * 2 ^ 53"
proof -
  define n where "n = k * 189151184349560825"
  define e where "e = bitlen n - 53"
  define P where "P = (2::nat) ^ e"
  define h where "h = (2::nat) ^ (e - 1)"
  have n_eq: "n + 7 * k = 21 * k * 2 ^ 53" by (simp add: n_def)
  from k1 have big: "2 ^ 53 \<le> n" by (simp add: n_def)
  have "\<not> bitlen n \<le> 53"
  proof
    assume "bitlen n \<le> 53"
    then have "(2::nat) ^ bitlen n \<le> 2 ^ 53" by (rule power_increasing) simp
    with bitlen_upper [of n] big show False by linarith
  qed
  then have long: "53 < bitlen n" by simp
  then have e1: "1 \<le> e" and bl: "bitlen n = e + 53" by (simp_all add: e_def)
  from big have "n \<noteq> 0" by auto
  from bitlen_lower [OF this] bl have lo: "2 ^ (e + 52) \<le> n" by (simp add: add.commute)
  from bitlen_upper [of n] bl have up: "n < P * 2 ^ 53" by (simp add: P_def power_add)
  from k2 have "n < 2 ^ 102" by (simp add: n_def)
  with lo have "(2::nat) ^ (e + 52) < 2 ^ 102" by linarith
  then have "e + 52 < 102" by (rule power_less_imp_less_exp [rotated]) simp
  then have e53: "e \<le> 53" by simp
  define D where "D = (2::nat) ^ (53 - e)"
  from e53 have PD: "P * D = 2 ^ 53" by (simp add: P_def D_def power_add [symmetric])
  from e1 have Ph: "P = 2 * h" unfolding P_def h_def by (cases e) simp_all
  have "14 * k * 2 ^ 53 \<le> n" using n_eq by simp
  with up have "14 * k * 2 ^ 53 < P * 2 ^ 53" by linarith
  then have k14: "14 * k < P" by simp
  with Ph have k7: "7 * k < h" by simp
  have D1: "1 \<le> D" by (simp add: D_def)
  define Q where "Q = 21 * k * D - 1"
  define R where "R = P - 7 * k"
  from k1 D1 have kD: "1 \<le> 21 * k * D" by (simp add: Suc_le_eq)
  have "Q * P + P = 21 * k * D * P"
    unfolding Q_def using kD by (simp add: algebra_simps Suc_le_eq)
  also have "\<dots> = 21 * k * 2 ^ 53" using PD by (simp add: algebra_simps)
  finally have QP: "Q * P + P = 21 * k * 2 ^ 53" .
  from k14 have R: "R + 7 * k = P" "R < P" using k1 by (simp_all add: R_def)
  from QP R n_eq have n_split: "n = Q * P + R" by linarith
  from n_split R(2) have q: "n div P = Q" by (simp add: P_def)
  from n_split R(2) have r: "n mod P = R" by (simp add: P_def)
  from R(1) Ph k7 have hR: "h < R" by linarith
  have "round53 n = (if h < n mod P \<or> (n mod P = h \<and> odd (n div P)) then n div P + 1 else n div P) * P"
    using long by (simp add: round53_def Let_def e_def P_def h_def)
  also have "\<dots> = (Q + 1) * P" using hR by (simp add: q r)
  also have "\<dots> = 21 * k * 2 ^ 53" using QP by (simp add: algebra_simps)
  finally show ?thesis unfolding n_def .
qed


lemma content_size_exact:
  assumes S: "S < 2 ^ 48"
  shows "content_size S = Inr (21 * S div 25)"
proof -
  define n where "n = S * 7566047373982433"
  define p where "p = round53 n"
  define F where "F = 21 * S div 25"
  define t where "t = 21 * S mod 25"
  from S have "S < 2 ^ 53" by simp
  then have rS: "round53 S = S" by (rule round53_small)
  from S have "S < 2 ^ 1024" by simp
  then have cs: "content_size S = Inr (p div 2 ^ 53)"
    by (simp add: content_size_def int_times_float_def CONTENT_RATIO_def rS p_def n_def)
  have St: "21 * S = 25 * F + t" "t < 25" by (simp_all add: F_def t_def)
  have n25: "25 * n + 7 * S = 21 * S * 2 ^ 53" by (simp add: n_def)
  have "n \<le> S * 2 ^ 53" by (simp add: n_def)
  then have nS: "n div 2 ^ 53 \<le> S" by (simp add: div_le_mono2 div_le_dividend less_eq_div_iff_mult_less_eq)
  from round53_le [of n] nS have up: "p \<le> n + S" unfolding p_def by linarith
  from round53_ge [of n] nS have lo: "n \<le> p + S" unfolding p_def by linarith
  from S have S': "S < 281474976710656" by simp
  have upper: "p < (F + 1) * 2 ^ 53"
    using up n25 St S' by simp
  have lower: "F * 2 ^ 53 \<le> p"
  proof (cases "t = 0")
    case False
    then show ?thesis using lo n25 St S' by simp
  next
    case True
    with St have S25: "21 * S = 25 * F" by simp
    then have "S = 25 * (6 * F - 5 * S)" by linarith
    then obtain k where k: "S = 25 * k" ..
    with S25 have Fk: "F = 21 * k" by simp
    show ?thesis
    proof (cases "k = 0")
      case True
      then show ?thesis by (simp add: Fk)
    next
      case False
      then have k1: "1 \<le> k" by simp
      from S' k have k2: "k < 2 ^ 44" by simp
      have "n = k * 189151184349560825" by (simp add: n_def k)
      with round53_exact_multiple [OF k1 k2] have "p = 21 * k * 2 ^ 53"
        by (simp add: p_def)
      then show ?thesis by (simp add: Fk)
    qed
  qed
  from lower upper have "p div 2 ^ 53 = F"
    by (intro div_nat_eqI) (simp_all add: algebra_simps)
  with cs show ?thesis by (simp add: F_def)
qed

lemma content_size_positive:
  assumes "2 \<le> S" and "S < 2 ^ 48"
  shows "\<exists>c. content_size S = Inr c \<and> 1 \<le> c"
proof -
  from assms(1) have "25 \<le> 21 * S" by simp
  then have "1 \<le> 21 * S div 25" by (simp add: less_eq_div_iff_mult_less_eq)
  with content_size_exact [OF assms(2)] show ?thesis by simp
qed

section \<open>Properties of the theme recolorer\<close>

lemma hex_to_rgb_THEMES:
  "map (\<lambda>t. hex_to_rgb (snd t)) THEMES =
     [Some (88, 101, 242), Some (139, 92, 246), Some (59, 130, 246), Some (34, 197, 94),
      Some (244, 114, 182), Some (212, 165, 116), Some (0, 212, 170), Some (255, 110, 180),
      Some (255, 107, 53)]"
  by (simp add: THEMES_def hex_to_rgb_def hex_digit_def)

lemma int16_bound: "int16 s = Some n \<Longrightarrow> n < 256"
  by (cases s rule: int16.cases) (auto simp: hex_digit_def Let_def split: if_splits option.splits)

lemma hex_to_rgb_bound:
  "hex_to_rgb c = Some (r, g, b) \<Longrightarrow> r < 256 \<and> g < 256 \<and> b < 256"
  by (auto simp: hex_to_rgb_def Let_def split: option.splits dest: int16_bound)

lemma unat_u8_of_nat: "n < 256 \<Longrightarrow> unat (of_nat n :: u8) = n"
  by (simp add: unat_of_nat take_bit_nat_eq_self)

text \<open>
  Claim C2. For every image, theme colour and pixel position: a pixel whose red, green
  and blue are all above the threshold 200 is foreground and keeps its RGB; a pixel
  whose alpha is below 128 is transparent and is left as it is; every other pixel is
  background, gets exactly the theme's RGB and keeps its alpha. Under the threshold 200
  the pixel (210, 215, 230, 255) is foreground and unchanged, the pixel (90, 95, 230,
  255) is background and becomes the theme colour with alpha 255, and a pixel with
  alpha 50 is left as it is whatever its RGB.
\<close>

theorem recolor_icon_classes:
  assumes col: "hex_to_rgb new_bg_color = Some (new_r, new_g, new_b)"
    and src: "open_image fs source_path = Inr img"
  shows "\<exists>out. recolor_icon fs source_path target_path new_bg_color = Inr (save_png fs target_path out)
     \<and> (\<forall>x y.
           (is_white (pixels img x y) \<longrightarrow>
              red (pixels out x y) = red (pixels img x y) \<and>
              green (pixels out x y) = green (pixels img x y) \<and>
              blue (pixels out x y) = blue (pixels img x y))
         \<and> (is_transparent (pixels img x y) \<longrightarrow> pixels out x y = pixels img x y)
         \<and> (\<not> is_white (pixels img x y) \<and> \<not> is_transparent (pixels img x y) \<longrightarrow>
              is_background (pixels img x y) \<and>
              unat (red (pixels out x y)) = new_r \<and>
              unat (green (pixels out x y)) = new_g \<and>
              unat (blue (pixels out x y)) = new_b \<and>
              alpha (pixels out x y) = alpha (pixels img x y)))
     \<and> is_white \<lparr>red = 210, green = 215, blue = 230, alpha = 255\<rparr>
     \<and> recolor_pixel (new_r, new_g, new_b) \<lparr>red = 210, green = 215, blue = 230, alpha = 255\<rparr>
         = \<lparr>red = 210, green = 215, blue = 230, alpha = 255\<rparr>
     \<and> is_background \<lparr>red = 90, green = 95, blue = 230, alpha = 255\<rparr>
     \<and> recolor_pixel (new_r, new_g, new_b) \<lparr>red = 90, green = 95, blue = 230, alpha = 255\<rparr>
         = \<lparr>red = of_nat new_r, green = of_nat new_g, blue = of_nat new_b, alpha = 255\<rparr>
     \<and> (\<forall>r g b. is_transparent \<lparr>red = r, green = g, blue = b, alpha = 50\<rparr>
           \<and> recolor_pixel (new_r, new_g, new_b) \<lparr>red = r, green = g, blue = b, alpha = 50\<rparr>
               = \<lparr>red = r, green = g, blue = b, alpha = 50\<rparr>)"
proof -
  from col have b: "new_r < 256" "new_g < 256" "new_b < 256"
    by (auto dest: hex_to_rgb_bound)
  let ?out = "recolor_data (new_r, new_g, new_b) img"
  have run: "recolor_icon fs source_path target_path new_bg_color = Inr (save_png fs target_path ?out)"
    using col src by (simp add: recolor_icon_def)
  have px: "\<And>x y. pixels ?out x y = recolor_pixel (new_r, new_g, new_b) (pixels img x y)"
    by (simp add: recolor_data_def)
  have cls: "\<forall>x y.
           (is_white (pixels img x y) \<longrightarrow>
              red (pixels ?out x y) = red (pixels img x y) \<and>
              green (pixels ?out x y) = green (pixels img x y) \<and>
              blue (pixels ?out x y) = blue (pixels img x y))
         \<and> (is_transparent (pixels img x y) \<longrightarrow> pixels ?out x y = pixels img x y)
         \<and> (\<not> is_white (pixels img x y) \<and> \<not> is_transparent (pixels img x y) \<longrightarrow>
              is_background (pixels img x y) \<and>
              unat (red (pixels ?out x y)) = new_r \<and>
              unat (green (pixels ?out x y)) = new_g \<and>
              unat (blue (pixels ?out x y)) = new_b \<and>
              alpha (pixels ?out x y) = alpha (pixels img x y))"
    using b by (simp add: px recolor_pixel_def is_background_def unat_u8_of_nat)
  have ex: "is_white \<lparr>red = 210, green = 215, blue = 230, alpha = 255\<rparr>"
     "recolor_pixel (new_r, new_g, new_b) \<lparr>red = 210, green = 215, blue = 230, alpha = 255\<rparr>
         = \<lparr>red = 210, green = 215, blue = 230, alpha = 255\<rparr>"
     "is_background \<lparr>red = 90, green = 95, blue = 230, alpha = 255\<rparr>"
     "recolor_pixel (new_r, new_g, new_b) \<lparr>red = 90, green = 95, blue = 230, alpha = 255\<rparr>
         = \<lparr>red = of_nat new_r, green = of_nat new_g, blue = of_nat new_b, alpha = 255\<rparr>"
     "\<forall>r g b. is_transparent \<lparr>red = r, green = g, blue = b, alpha = 50\<rparr>
           \<and> recolor_pixel (new_r, new_g, new_b) \<lparr>red = r, green = g, blue = b, alpha = 50\<rparr>
               = \<lparr>red = r, green = g, blue = b, alpha = 50\<rparr>"
    by (simp_all add: recolor_pixel_def is_background_def is_white_def is_transparent_def white_threshold_def)
  from run cls ex show ?thesis by blast
qed

theorem recolor_icon_classes_witness:
  "\<exists>out. recolor_icon [''base/icon_16x16.png'' \<mapsto> PNG (new_image (16, 16) \<lparr>red = 90, green = 95, blue = 230, alpha = 255\<rparr>)]
       ''base/icon_16x16.png'' ''out/icon_16x16.png'' ''#22c55e''
     = Inr (save_png [''base/icon_16x16.png'' \<mapsto> PNG (new_image (16, 16) \<lparr>red = 90, green = 95, blue = 230, alpha = 255\<rparr>)]
              ''out/icon_16x16.png'' out)
     \<and> unat (red (pixels out 3 5)) = 34 \<and> unat (green (pixels out 3 5)) = 197
     \<and> unat (blue (pixels out 3 5)) = 94 \<and> alpha (pixels out 3 5) = 255"
proof -
  let ?p = "\<lparr>red = 90, green = 95, blue = 230, alpha = 255\<rparr> :: rgba"
  let ?img = "new_image (16, 16) ?p"
  let ?fs = "[''base/icon_16x16.png'' \<mapsto> PNG ?img]"
  have col: "hex_to_rgb ''#22c55e'' = Some (34, 197, 94)"
    by (simp add: hex_to_rgb_def hex_digit_def)
  have src: "open_image ?fs ''base/icon_16x16.png'' = Inr ?img"
    by (simp add: open_image_def)
  have bg: "\<not> is_white (pixels ?img 3 5) \<and> \<not> is_transparent (pixels ?img 3 5)"
    by (simp add: new_image_def is_white_def is_transparent_def white_threshold_def)
  from recolor_icon_classes [OF col src, of "''out/icon_16x16.png''"]
  obtain out where o: "recolor_icon ?fs ''base/icon_16x16.png'' ''out/icon_16x16.png'' ''#22c55e''
       = Inr (save_png ?fs ''out/icon_16x16.png'' out)"
    and c: "\<not> is_white (pixels ?img 3 5) \<and> \<not> is_transparent (pixels ?img 3 5) \<longrightarrow>
              is_background (pixels ?img 3 5) \<and>
              unat (red (pixels out 3 5)) = 34 \<and>
              unat (green (pixels out 3 5)) = 197 \<and>
              unat (blue (pixels out 3 5)) = 94 \<and>
              alpha (pixels out 3 5) = alpha (pixels ?img 3 5)"
    by blast
  from c bg have "unat (red (pixels out 3 5)) = 34 \<and> unat (green (pixels out 3 5)) = 197
     \<and> unat (blue (pixels out 3 5)) = 94 \<and> alpha (pixels out 3 5) = 255"
    by (simp add: new_image_def)
  with o show ?thesis by blast
qed

text \<open>
  Claim C9. The recolor transform keeps the alpha of every pixel, keeps every pixel
  that is foreground or transparent in all four channels, and changes a pixel only
  where it is background; the image keeps its dimensions and the only file written is
  the target.
\<close>

theorem recolor_icon_frame:
  assumes run: "recolor_icon fs source_path target_path new_bg_color = Inr fs'"
  shows "\<exists>img out. open_image fs source_path = Inr img
     \<and> fs' = fs(target_path \<mapsto> PNG out)
     \<and> width out = width img \<and> height out = height img
     \<and> (\<forall>x y. alpha (pixels out x y) = alpha (pixels img x y)
            \<and> (is_white (pixels img x y) \<or> is_transparent (pixels img x y) \<longrightarrow>
                 pixels out x y = pixels img x y)
            \<and> (pixels out x y \<noteq> pixels img x y \<longrightarrow> is_background (pixels img x y)))"
proof -
  from run obtain img new where src: "open_image fs source_path = Inr img"
    and fs': "fs' = save_png fs target_path (recolor_data new img)"
    by (auto simp: recolor_icon_def split: sum.splits option.splits)
  let ?out = "recolor_data new img"
  have "\<forall>x y. alpha (pixels ?out x y) = alpha (pixels img x y)
            \<and> (is_white (pixels img x y) \<or> is_transparent (pixels img x y) \<longrightarrow>
                 pixels ?out x y = pixels img x y)
            \<and> (pixels ?out x y \<noteq> pixels img x y \<longrightarrow> is_background (pixels img x y))"
    by (cases new) (auto simp: recolor_data_def recolor_pixel_def is_background_def)
  moreover have "width ?out = width img \<and> height ?out = height img"
    by (simp add: recolor_data_def)
  ultimately show ?thesis using src fs' unfolding save_png_def by blast
qed

theorem recolor_icon_frame_witness:
  "\<exists>img out. open_image [''base/icon_16x16.png'' \<mapsto> PNG (new_image (16, 16) \<lparr>red = 255, green = 255, blue = 255, alpha = 200\<rparr>)]
         ''base/icon_16x16.png'' = Inr img
     \<and> save_png [''base/icon_16x16.png'' \<mapsto> PNG (new_image (16, 16) \<lparr>red = 255, green = 255, blue = 255, alpha = 200\<rparr>)]
         ''out/icon_16x16.png''
         (recolor_data (255, 107, 53) (new_image (16, 16) \<lparr>red = 255, green = 255, blue = 255, alpha = 200\<rparr>))
       = [''base/icon_16x16.png'' \<mapsto> PNG (new_image (16, 16) \<lparr>red = 255, green = 255, blue = 255, alpha = 200\<rparr>)]
           (''out/icon_16x16.png'' \<mapsto> PNG out)
     \<and> width out = width img \<and> height out = height img
     \<and> alpha (pixels out 7 9) = alpha (pixels img 7 9)"
proof -
  let ?img = "new_image (16, 16) \<lparr>red = 255, green = 255, blue = 255, alpha = 200\<rparr>"
  let ?fs = "[''base/icon_16x16.png'' \<mapsto> PNG ?img]"
  have run: "recolor_icon ?fs ''base/icon_16x16.png'' ''out/icon_16x16.png'' ''#ff6b35''
      = Inr (save_png ?fs ''out/icon_16x16.png'' (recolor_data (255, 107, 53) ?img))"
    by (simp add: recolor_icon_def open_image_def hex_to_rgb_def hex_digit_def)
  from recolor_icon_frame [OF run] show ?thesis by blast
qed

section \<open>Properties of the padding normalizer\<close>












section \<open>Properties of the iconset completer\<close>

lemma sorted_REQUIRED_SIZES:
  "sort_key (\<lambda>x. - int (snd x)) REQUIRED_SIZES =
     [(''icon_512x512@2x.png'', 1024),
      (''icon_256x256@2x.png'', 512),
      (''icon_512x512.png'', 512),
      (''icon_128x128@2x.png'', 256),
      (''icon_256x256.png'', 256),
      (''icon_128x128.png'', 128),
      (''icon_32x32@2x.png'', 64),
      (''icon_16x16@2x.png'', 32),
      (''icon_32x32.png'', 32),
      (''icon_16x16.png'', 16)]"
  by (simp add: REQUIRED_SIZES_def)

lemma path_join_inject: "path_join d f = path_join d g \<longleftrightarrow> f = g"
  by (simp add: path_join_def)

lemma find_source_none:
  "(\<forall>(f, s) \<in> set xs. \<not> exists_path fs (path_join ICONSET_DIR f)) \<Longrightarrow>
     find_source fs xs st = Inr st"
  by (induction fs xs st rule: find_source.induct) auto

lemma find_source_first:
  assumes "\<forall>(f, s) \<in> set pre. \<not> exists_path fs (path_join ICONSET_DIR f)"
    and "exists_path fs (path_join ICONSET_DIR fn)"
    and "open_image fs (path_join ICONSET_DIR fn) = Inr src"
  shows "find_source fs (pre @ (fn, sz) # post) (si, 0, out)
           = Inr (Some src, width src, out @ [UsingSource fn (width src)])"
  using assms by (induction pre) auto

lemma open_image_exists:
  "exists_path fs p \<Longrightarrow> \<exists>img. open_image fs p = Inr img"
  by (auto simp: exists_path_def open_image_def split: option.splits file_content.splits)


lemma generate_loop_Inr:
  "\<forall>(f, s) \<in> set xs. 1 \<le> s \<Longrightarrow> \<exists>st'. generate_loop rs src ss xs st = Inr st'"
proof (induction xs arbitrary: st)
  case Nil
  then show ?case by simp
next
  case (Cons a xs)
  obtain f s where a: "a = (f, s)" by (cases a)
  obtain fs out where st: "st = (fs, out)" by (cases st)
  from Cons.prems a have s: "1 \<le> s" and rest: "\<forall>(f, s) \<in> set xs. 1 \<le> s" by auto
  from s have rz: "resize rs src (s, s) = Inr \<lparr>width = s, height = s, pixels = rs src (s, s)\<rparr>"
    by (simp add: resize_def)
  show ?case using Cons.IH [OF rest] by (simp add: a st rz Let_def)
qed

lemma generate_loop_frame:
  "generate_loop rs src ss xs (fs, out) = Inr (fs', out') \<Longrightarrow> f \<notin> fst ` set xs \<Longrightarrow>
     fs' (path_join ICONSET_DIR f) = fs (path_join ICONSET_DIR f)"
proof (induction xs arbitrary: fs out)
  case Nil
  then show ?case by simp
next
  case (Cons a xs)
  obtain g s where a: "a = (g, s)" by (cases a)
  from Cons.prems(2) a have ne: "g \<noteq> f" and nin: "f \<notin> fst ` set xs" by auto
  from Cons.prems(1) obtain resized out1 where rz: "resize rs src (s, s) = Inr resized"
    and rec: "generate_loop rs src ss xs (save_png fs (path_join ICONSET_DIR g) resized, out1)
                = Inr (fs', out')"
    by (auto simp: a Let_def split: if_splits sum.splits)
  from Cons.IH [OF rec nin] ne show ?case
    by (simp add: save_png_def path_join_inject)
qed

lemma generate_loop_files:
  "generate_loop rs src ss xs (fs, out) = Inr (fs', out') \<Longrightarrow> distinct (map fst xs) \<Longrightarrow>
     (f, s) \<in> set xs \<Longrightarrow>
     fs' (path_join ICONSET_DIR f) = Some (PNG \<lparr>width = s, height = s, pixels = rs src (s, s)\<rparr>)"
proof (induction xs arbitrary: fs out)
  case Nil
  then show ?case by simp
next
  case (Cons a xs)
  obtain g t where a: "a = (g, t)" by (cases a)
  from Cons.prems(2) a have nin: "g \<notin> fst ` set xs" and dist: "distinct (map fst xs)" by auto
  from Cons.prems(1) obtain resized out1 where rz: "resize rs src (t, t) = Inr resized"
    and rec: "generate_loop rs src ss xs (save_png fs (path_join ICONSET_DIR g) resized, out1)
                = Inr (fs', out')"
    by (auto simp: a Let_def split: if_splits sum.splits)
  show ?case
  proof (cases "(f, s) \<in> set xs")
    case True
    from Cons.IH [OF rec dist True] show ?thesis .
  next
    case False
    with Cons.prems(3) a have eq: "g = f" "t = s" by auto
    from rz have "resized = \<lparr>width = s, height = s, pixels = rs src (s, s)\<rparr>"
      by (auto simp: resize_def eq split: if_splits)
    with generate_loop_frame [OF rec nin] show ?thesis
      by (simp add: save_png_def eq)
  qed
qed

lemma generate_loop_out:
  "generate_loop rs src ss xs (fs, out) = Inr (fs', out') \<Longrightarrow>
     set out' = set out \<union> {Created f s |f s. (f, s) \<in> set xs}
                \<union> {WarningUpscaling s ss |f s. (f, s) \<in> set xs \<and> ss < s}"
proof (induction xs arbitrary: fs out)
  case Nil
  then show ?case by simp
next
  case (Cons a xs)
  obtain g t where a: "a = (g, t)" by (cases a)
  show ?case
  proof (cases "t \<le> ss")
    case True
    with Cons.prems obtain resized where
      rec: "generate_loop rs src ss xs (save_png fs (path_join ICONSET_DIR g) resized,
              out @ [Created g t]) = Inr (fs', out')"
      by (auto simp: a Let_def split: sum.splits)
    from Cons.IH [OF rec] True show ?thesis by (auto simp: a)
  next
    case False
    with Cons.prems obtain resized where
      rec: "generate_loop rs src ss xs (save_png fs (path_join ICONSET_DIR g) resized,
              out @ [WarningUpscaling t ss, Created g t]) = Inr (fs', out')"
      by (auto simp: a Let_def split: sum.splits)
    from Cons.IH [OF rec] False show ?thesis by (auto simp: a)
  qed
qed

lemma REQUIRED_SIZES_positive: "\<forall>(f, s) \<in> set REQUIRED_SIZES. 1 \<le> s"
  by (simp add: REQUIRED_SIZES_def)

lemma REQUIRED_SIZES_distinct: "distinct (map fst REQUIRED_SIZES)"
  by (simp add: REQUIRED_SIZES_def)

lemma prepare_iconset_none:
  assumes "\<forall>(f, s) \<in> set REQUIRED_SIZES. \<not> exists_path fs (path_join ICONSET_DIR f)"
  shows "prepare_iconset rs fs = Inr (False, fs, [Preparing, ErrorNoSource])"
proof -
  from assms have "\<forall>(f, s) \<in> set (sort_key (\<lambda>x. - int (snd x)) REQUIRED_SIZES).
      \<not> exists_path fs (path_join ICONSET_DIR f)"
    by simp
  then have "find_source fs (sort_key (\<lambda>x. - int (snd x)) REQUIRED_SIZES) (None, 0, [Preparing])
      = Inr (None, 0, [Preparing])"
    by (rule find_source_none)
  then show ?thesis by (simp add: prepare_iconset_def)
qed

lemma prepare_iconset_run:
  assumes split: "sort_key (\<lambda>x. - int (snd x)) REQUIRED_SIZES = pre @ (fn, sz) # post"
    and pre: "\<forall>(f, s) \<in> set pre. \<not> exists_path fs (path_join ICONSET_DIR f)"
    and ex: "exists_path fs (path_join ICONSET_DIR fn)"
    and src: "open_image fs (path_join ICONSET_DIR fn) = Inr src"
  shows "\<exists>fs' out. prepare_iconset rs fs = Inr (True, fs', out)
     \<and> (\<forall>(f, s) \<in> set REQUIRED_SIZES.
           fs' (path_join ICONSET_DIR f)
             = Some (PNG \<lparr>width = s, height = s, pixels = rs src (s, s)\<rparr>))
     \<and> set out = {Preparing, UsingSource fn (width src), Generating}
                \<union> {Created f s |f s. (f, s) \<in> set REQUIRED_SIZES}
                \<union> {WarningUpscaling s (width src) |f s.
                      (f, s) \<in> set REQUIRED_SIZES \<and> width src < s}"
proof -
  have fnd: "find_source fs (sort_key (\<lambda>x. - int (snd x)) REQUIRED_SIZES) (None, 0, [Preparing])
      = Inr (Some src, width src, [Preparing] @ [UsingSource fn (width src)])"
    unfolding split by (rule find_source_first [OF pre ex src])
  from generate_loop_Inr [OF REQUIRED_SIZES_positive]
  obtain fs' out where gen: "generate_loop rs src (width src) REQUIRED_SIZES
      (fs, [Preparing, UsingSource fn (width src), Generating]) = Inr (fs', out)"
    by (metis surj_pair)
  have run: "prepare_iconset rs fs = Inr (True, fs', out)"
    using fnd gen by (simp add: prepare_iconset_def)
  have files: "\<forall>(f, s) \<in> set REQUIRED_SIZES.
           fs' (path_join ICONSET_DIR f)
             = Some (PNG \<lparr>width = s, height = s, pixels = rs src (s, s)\<rparr>)"
    using generate_loop_files [OF gen REQUIRED_SIZES_distinct] by blast
  have out: "set out = {Preparing, UsingSource fn (width src), Generating}
                \<union> {Created f s |f s. (f, s) \<in> set REQUIRED_SIZES}
                \<union> {WarningUpscaling s (width src) |f s.
                      (f, s) \<in> set REQUIRED_SIZES \<and> width src < s}"
    using generate_loop_out [OF gen] by auto
  from run files out show ?thesis by blast
qed

lemma first_existing:
  assumes "\<exists>(f, s) \<in> set REQUIRED_SIZES. exists_path fs (path_join ICONSET_DIR f)"
  shows "\<exists>pre fn sz post src.
       sort_key (\<lambda>x. - int (snd x)) REQUIRED_SIZES = pre @ (fn, sz) # post
     \<and> (\<forall>(f, s) \<in> set pre. \<not> exists_path fs (path_join ICONSET_DIR f))
     \<and> exists_path fs (path_join ICONSET_DIR fn)
     \<and> open_image fs (path_join ICONSET_DIR fn) = Inr src"
proof -
  let ?P = "\<lambda>x. exists_path fs (path_join ICONSET_DIR (fst x))"
  define order where "order = sort_key (\<lambda>x. - int (snd x)) REQUIRED_SIZES"
  from assms have "\<exists>x \<in> set order. ?P x"
    by (simp add: order_def case_prod_beta)
  from split_list_first_prop [OF this]
  obtain pre x post where sp: "order = pre @ x # post"
    and px: "?P x" and npre: "\<forall>y \<in> set pre. \<not> ?P y"
    by blast
  obtain fn sz where x: "x = (fn, sz)" by (cases x)
  from px x obtain src where "open_image fs (path_join ICONSET_DIR fn) = Inr src"
    by (auto dest: open_image_exists)
  with sp px npre x show ?thesis unfolding order_def by (auto simp: case_prod_beta)
qed

lemma REQUIRED_SIZES_sizes:
  "snd ` set REQUIRED_SIZES = {16, 32, 64, 128, 256, 512, 1024}"
  by (simp add: REQUIRED_SIZES_def insert_commute)

text \<open>
  Claim C4. Given an iconset directory in which exactly one of the required files
  exists, the completer succeeds and writes all ten required files, each with exactly
  the pixel dimensions of its (filename, size) pair; it prints a warning for a target
  size exactly when that size exceeds the source's width, and the file is written all
  the same. With a 512 pixel wide source the only warning is for 1024 from 512.
\<close>

theorem prepare_iconset_from_single_source:
  assumes mem: "(fname, fsize) \<in> set REQUIRED_SIZES"
    and fl: "fs (path_join ICONSET_DIR fname) = Some (PNG src)"
    and only: "\<forall>(f, s) \<in> set REQUIRED_SIZES. f \<noteq> fname \<longrightarrow> fs (path_join ICONSET_DIR f) = None"
  shows "\<exists>fs' out. prepare_iconset rs fs = Inr (True, fs', out)
     \<and> (\<forall>(f, s) \<in> set REQUIRED_SIZES.
           \<exists>im. fs' (path_join ICONSET_DIR f) = Some (PNG im) \<and> width im = s \<and> height im = s)
     \<and> (\<forall>(f, s) \<in> set REQUIRED_SIZES. Created f s \<in> set out)
     \<and> (\<forall>(f, s) \<in> set REQUIRED_SIZES.
           WarningUpscaling s (width src) \<in> set out \<longleftrightarrow> width src < s)
     \<and> (width src = 512 \<longrightarrow>
           (\<forall>s t. WarningUpscaling s t \<in> set out \<longleftrightarrow> s = 1024 \<and> t = 512))"
proof -
  from mem fl have "\<exists>(f, s) \<in> set REQUIRED_SIZES. exists_path fs (path_join ICONSET_DIR f)"
    by (auto simp: exists_path_def)
  from first_existing [OF this]
  obtain pre fn sz post src' where
      sp: "sort_key (\<lambda>x. - int (snd x)) REQUIRED_SIZES = pre @ (fn, sz) # post"
    and pre: "\<forall>(f, s) \<in> set pre. \<not> exists_path fs (path_join ICONSET_DIR f)"
    and ex: "exists_path fs (path_join ICONSET_DIR fn)"
    and src': "open_image fs (path_join ICONSET_DIR fn) = Inr src'"
    by blast
  have "(fn, sz) \<in> set (sort_key (\<lambda>x. - int (snd x)) REQUIRED_SIZES)"
    unfolding sp by simp
  then have "(fn, sz) \<in> set REQUIRED_SIZES" by simp
  with only ex have "fn = fname" by (auto simp: exists_path_def)
  with src' fl have eq: "src' = src" by (simp add: open_image_def)
  from prepare_iconset_run [OF sp pre ex src', of rs]
  obtain fs' out where run: "prepare_iconset rs fs = Inr (True, fs', out)"
    and files: "\<forall>(f, s) \<in> set REQUIRED_SIZES.
           fs' (path_join ICONSET_DIR f)
             = Some (PNG \<lparr>width = s, height = s, pixels = rs src (s, s)\<rparr>)"
    and out: "set out = {Preparing, UsingSource fn (width src), Generating}
                \<union> {Created f s |f s. (f, s) \<in> set REQUIRED_SIZES}
                \<union> {WarningUpscaling s (width src) |f s.
                      (f, s) \<in> set REQUIRED_SIZES \<and> width src < s}"
    unfolding eq by blast
  have dims: "\<forall>(f, s) \<in> set REQUIRED_SIZES.
           \<exists>im. fs' (path_join ICONSET_DIR f) = Some (PNG im) \<and> width im = s \<and> height im = s"
    using files by fastforce
  have created: "\<forall>(f, s) \<in> set REQUIRED_SIZES. Created f s \<in> set out"
    unfolding out by auto
  have warn: "\<forall>(f, s) \<in> set REQUIRED_SIZES.
           WarningUpscaling s (width src) \<in> set out \<longleftrightarrow> width src < s"
    unfolding out by auto
  have big: "(\<exists>f. (f, s) \<in> set REQUIRED_SIZES \<and> 512 < s) \<longleftrightarrow> s = 1024" for s
  proof -
    have "(\<exists>f. (f, s) \<in> set REQUIRED_SIZES \<and> 512 < s)
            \<longleftrightarrow> s \<in> snd ` set REQUIRED_SIZES \<and> 512 < s"
      by force
    also have "\<dots> \<longleftrightarrow> s = 1024"
      unfolding REQUIRED_SIZES_sizes by auto
    finally show ?thesis .
  qed
  have w512: "width src = 512 \<longrightarrow>
           (\<forall>s t. WarningUpscaling s t \<in> set out \<longleftrightarrow> s = 1024 \<and> t = 512)"
  proof (intro impI allI)
    fix s t
    assume w: "width src = 512"
    have "WarningUpscaling s t \<in> set out \<longleftrightarrow>
            t = 512 \<and> (\<exists>f. (f, s) \<in> set REQUIRED_SIZES \<and> 512 < s)"
      unfolding out w by auto
    then show "WarningUpscaling s t \<in> set out \<longleftrightarrow> s = 1024 \<and> t = 512"
      using big [of s] by blast
  qed
  from run dims created warn w512 show ?thesis by blast
qed

theorem prepare_iconset_from_single_source_witness:
  "\<exists>fs' out.
      prepare_iconset nearest_neighbour
        [path_join ICONSET_DIR ''icon_512x512.png'' \<mapsto> PNG (new_image (512, 512) white)]
        = Inr (True, fs', out)
    \<and> (\<exists>im. fs' (path_join ICONSET_DIR ''icon_512x512@2x.png'') = Some (PNG im)
           \<and> width im = 1024 \<and> height im = 1024)
    \<and> (\<exists>im. fs' (path_join ICONSET_DIR ''icon_16x16.png'') = Some (PNG im)
           \<and> width im = 16 \<and> height im = 16)
    \<and> Created ''icon_512x512@2x.png'' 1024 \<in> set out
    \<and> WarningUpscaling 1024 512 \<in> set out
    \<and> WarningUpscaling 512 512 \<notin> set out"
proof -
  let ?src = "new_image (512, 512) white"
  let ?fs = "[path_join ICONSET_DIR ''icon_512x512.png'' \<mapsto> PNG ?src]"
  have mem: "(''icon_512x512.png'', 512) \<in> set REQUIRED_SIZES"
    by (simp add: REQUIRED_SIZES_def)
  have fl: "?fs (path_join ICONSET_DIR ''icon_512x512.png'') = Some (PNG ?src)"
    by simp
  have only: "\<forall>(f, s) \<in> set REQUIRED_SIZES.
      f \<noteq> ''icon_512x512.png'' \<longrightarrow> ?fs (path_join ICONSET_DIR f) = None"
    by (simp add: path_join_inject case_prod_beta)
  have big: "(''icon_512x512@2x.png'', 1024) \<in> set REQUIRED_SIZES"
    and small: "(''icon_16x16.png'', 16) \<in> set REQUIRED_SIZES"
    by (simp_all add: REQUIRED_SIZES_def)
  have w: "width ?src = 512" by (simp add: new_image_def)
  from prepare_iconset_from_single_source
         [where fs = ?fs and fname = "''icon_512x512.png''" and src = ?src
            and rs = nearest_neighbour, OF mem fl only]
  obtain fs' out where run: "prepare_iconset nearest_neighbour ?fs = Inr (True, fs', out)"
    and dims: "\<forall>(f, s) \<in> set REQUIRED_SIZES.
           \<exists>im. fs' (path_join ICONSET_DIR f) = Some (PNG im) \<and> width im = s \<and> height im = s"
    and created: "\<forall>(f, s) \<in> set REQUIRED_SIZES. Created f s \<in> set out"
    and w512: "\<forall>s t. WarningUpscaling s t \<in> set out \<longleftrightarrow> s = 1024 \<and> t = 512"
    using w by auto
  from dims big have d1: "\<exists>im. fs' (path_join ICONSET_DIR ''icon_512x512@2x.png'') = Some (PNG im)
           \<and> width im = 1024 \<and> height im = 1024"
    by fast
  from dims small have d2: "\<exists>im. fs' (path_join ICONSET_DIR ''icon_16x16.png'') = Some (PNG im)
           \<and> width im = 16 \<and> height im = 16"
    by fast
  from created big have c: "Created ''icon_512x512@2x.png'' 1024 \<in> set out" by fast
  from w512 have ws: "WarningUpscaling 1024 512 \<in> set out" "WarningUpscaling 512 512 \<notin> set out"
    by simp_all
  from run d1 d2 c ws show ?thesis by blast
qed

text \<open>
  Claim C5. The completer never raises: it returns a success flag. The flag is false
  exactly when none of the required files exists, and then nothing is written and the
  error line is printed. Otherwise the source is the first entry, in the required list
  sorted by falling size (1024, 512, 512, 256, 256, 128, 64, 32, 32, 16), whose file
  exists, and every required file is regenerated by resampling that one source.
\<close>

theorem prepare_iconset_source_selection:
  "\<exists>ok fs' out. prepare_iconset rs fs = Inr (ok, fs', out)
     \<and> (\<not> ok \<longleftrightarrow> (\<forall>(f, s) \<in> set REQUIRED_SIZES. \<not> exists_path fs (path_join ICONSET_DIR f)))
     \<and> (\<not> ok \<longrightarrow> fs' = fs \<and> ErrorNoSource \<in> set out)
     \<and> (ok \<longrightarrow>
          (\<exists>pre fn sz post src.
              sort_key (\<lambda>x. - int (snd x)) REQUIRED_SIZES = pre @ (fn, sz) # post
            \<and> (\<forall>(f, s) \<in> set pre. \<not> exists_path fs (path_join ICONSET_DIR f))
            \<and> exists_path fs (path_join ICONSET_DIR fn)
            \<and> open_image fs (path_join ICONSET_DIR fn) = Inr src
            \<and> UsingSource fn (width src) \<in> set out
            \<and> (\<forall>(f, s) \<in> set REQUIRED_SIZES.
                  fs' (path_join ICONSET_DIR f)
                    = Some (PNG \<lparr>width = s, height = s, pixels = rs src (s, s)\<rparr>))))
     \<and> map snd (sort_key (\<lambda>x. - int (snd x)) REQUIRED_SIZES)
          = [1024, 512, 512, 256, 256, 128, 64, 32, 32, 16]"
proof (cases "\<forall>(f, s) \<in> set REQUIRED_SIZES. \<not> exists_path fs (path_join ICONSET_DIR f)")
  case True
  have ord: "map snd (sort_key (\<lambda>x. - int (snd x)) REQUIRED_SIZES)
          = [1024, 512, 512, 256, 256, 128, 64, 32, 32, 16]"
    by (simp add: sorted_REQUIRED_SIZES)
  from prepare_iconset_none [OF True, of rs] True ord show ?thesis
    by (intro exI [of _ False] exI [of _ fs] exI [of _ "[Preparing, ErrorNoSource]"]) simp
next
  case False
  then have "\<exists>(f, s) \<in> set REQUIRED_SIZES. exists_path fs (path_join ICONSET_DIR f)"
    by auto
  from first_existing [OF this]
  obtain pre fn sz post src where
      sp: "sort_key (\<lambda>x. - int (snd x)) REQUIRED_SIZES = pre @ (fn, sz) # post"
    and pre: "\<forall>(f, s) \<in> set pre. \<not> exists_path fs (path_join ICONSET_DIR f)"
    and ex: "exists_path fs (path_join ICONSET_DIR fn)"
    and src: "open_image fs (path_join ICONSET_DIR fn) = Inr src"
    by blast
  from prepare_iconset_run [OF sp pre ex src, of rs]
  obtain fs' out where run: "prepare_iconset rs fs = Inr (True, fs', out)"
    and files: "\<forall>(f, s) \<in> set REQUIRED_SIZES.
           fs' (path_join ICONSET_DIR f)
             = Some (PNG \<lparr>width = s, height = s, pixels = rs src (s, s)\<rparr>)"
    and out: "UsingSource fn (width src) \<in> set out"
    by auto
  have ord: "map snd (sort_key (\<lambda>x. - int (snd x)) REQUIRED_SIZES)
          = [1024, 512, 512, 256, 256, 128, 64, 32, 32, 16]"
    by (simp add: sorted_REQUIRED_SIZES)
  from run False sp pre ex src out files ord show ?thesis
    by (intro exI [of _ True] exI [of _ fs'] exI [of _ out]) blast
qed

theorem prepare_iconset_source_selection_witness:
  "(\<exists>out. prepare_iconset nearest_neighbour Map.empty = Inr (False, Map.empty, out)
       \<and> ErrorNoSource \<in> set out)
   \<and> (\<exists>fs' out.
        prepare_iconset nearest_neighbour
          [path_join ICONSET_DIR ''icon_32x32.png'' \<mapsto> PNG (new_image (32, 32) white)]
          = Inr (True, fs', out))"
proof -
  let ?fs = "[path_join ICONSET_DIR ''icon_32x32.png'' \<mapsto> PNG (new_image (32, 32) white)]"
  have none: "\<forall>(f, s) \<in> set REQUIRED_SIZES. \<not> exists_path Map.empty (path_join ICONSET_DIR f)"
    by (simp add: exists_path_def case_prod_beta)
  have mem: "(''icon_32x32.png'', 32) \<in> set REQUIRED_SIZES"
    by (simp add: REQUIRED_SIZES_def)
  have "exists_path ?fs (path_join ICONSET_DIR ''icon_32x32.png'')"
    by (simp add: exists_path_def)
  with mem have some: "\<not> (\<forall>(f, s) \<in> set REQUIRED_SIZES. \<not> exists_path ?fs (path_join ICONSET_DIR f))"
    by fast
  from prepare_iconset_source_selection [of nearest_neighbour Map.empty]
  obtain ok fs' out where r: "prepare_iconset nearest_neighbour Map.empty = Inr (ok, fs', out)"
    and i: "\<not> ok \<longleftrightarrow>
      (\<forall>(f, s) \<in> set REQUIRED_SIZES. \<not> exists_path Map.empty (path_join ICONSET_DIR f))"
    and f: "\<not> ok \<longrightarrow> fs' = Map.empty \<and> ErrorNoSource \<in> set out"
    by (elim exE conjE) blast
  from i none have "\<not> ok" by simp
  with r f have a: "\<exists>out. prepare_iconset nearest_neighbour Map.empty = Inr (False, Map.empty, out)
       \<and> ErrorNoSource \<in> set out"
    by auto
  from prepare_iconset_source_selection [of nearest_neighbour ?fs]
  obtain ok' fs'' out' where r': "prepare_iconset nearest_neighbour ?fs = Inr (ok', fs'', out')"
    and i': "\<not> ok' \<longleftrightarrow>
      (\<forall>(f, s) \<in> set REQUIRED_SIZES. \<not> exists_path ?fs (path_join ICONSET_DIR f))"
    by (elim exE conjE) blast
  from i' some have "ok'" by simp
  with r' have b: "\<exists>fs' out. prepare_iconset nearest_neighbour ?fs = Inr (True, fs', out)"
    by auto
  from a b show ?thesis by blast
qed

section \<open>Properties of the icon synthesizer\<close>

lemma int_times_float_small:
  "n < 2 ^ 53 \<Longrightarrow> \<exists>c. int_times_float n (m, k) = Inr c"
  by (simp add: int_times_float_def round53_small)

lemma fill_shape_dims [simp]:
  "width (fill_shape img cover c) = width img" "height (fill_shape img cover c) = height img"
  by (simp_all add: fill_shape_def)

lemma foldl_dims:
  assumes "\<And>img x. width (f img x) = width img \<and> height (f img x) = height img"
  shows "width (foldl f img xs) = width img \<and> height (foldl f img xs) = height img"
  using assms by (induction xs arbitrary: img) simp_all

lemma draw_branches_dims [simp]:
  "width (draw_branches lib sz img) = width img" "height (draw_branches lib sz img) = height img"
  unfolding draw_branches_def
  by (rule foldl_dims [THEN conjunct1], simp add: case_prod_beta Let_def,
      rule foldl_dims [THEN conjunct2], simp add: case_prod_beta Let_def)

lemma draw_leaves_dims [simp]:
  "width (draw_leaves lib sz img) = width img" "height (draw_leaves lib sz img) = height img"
  unfolding draw_leaves_def
  by (rule foldl_dims [THEN conjunct1], simp add: case_prod_beta draw_ellipse_rotated_def,
      rule foldl_dims [THEN conjunct2], simp add: case_prod_beta draw_ellipse_rotated_def)

lemma create_arbor_icon_result:
  assumes "sz < 2 ^ 53"
  shows "\<exists>final. create_arbor_icon lib sz output_path (fs, out)
            = Inr (final, save_png fs output_path final, out @ [CreatedIcon output_path])
         \<and> width final = sz \<and> height final = sz"
proof -
  from int_times_float_small [OF assms]
  obtain c where c: "int_times_float sz (7926335344172073, 55) = Inr c" by blast
  show ?thesis
    by (simp add: create_arbor_icon_def c Let_def composite_def new_image_def new_gray_def
        fill_gray_def)
qed


text \<open>
  Claim C7. For every target size from 16 up to 1024 pixels the icon synthesizer
  succeeds and produces an RGBA image whose width and height both equal the requested
  size; that image is what it writes to the output path.
\<close>

theorem create_arbor_icon_dimensions:
  assumes "16 \<le> sz" and "sz \<le> 1024"
  shows "\<exists>final fs' out'. create_arbor_icon lib sz output_path (fs, out) = Inr (final, fs', out')
     \<and> width final = sz \<and> height final = sz
     \<and> fs' output_path = Some (PNG final)"
proof -
  from assms have "sz < 2 ^ 53" by simp
  from create_arbor_icon_result [OF this, of lib output_path fs out]
  show ?thesis by (auto simp: save_png_def)
qed

theorem create_arbor_icon_dimensions_witness:
  "\<exists>final fs' out'.
       create_arbor_icon blank_pil 48 ''build/temp_ico_48.png'' (Map.empty, [])
         = Inr (final, fs', out')
     \<and> width final = 48 \<and> height final = 48
     \<and> fs' ''build/temp_ico_48.png'' = Some (PNG final)"
  using create_arbor_icon_dimensions [of 48 blank_pil "''build/temp_ico_48.png''" Map.empty "[]"]
  by simp



section \<open>Failure of the packaging tool\<close>

lemma recolor_icon_ok:
  "exists_path fs source_path \<Longrightarrow> hex_to_rgb c = Some new \<Longrightarrow>
     \<exists>fs'. recolor_icon fs source_path target_path c = Inr fs'"
  by (auto simp: recolor_icon_def dest!: open_image_exists)

lemma create_themed_loop_ok:
  assumes "hex_to_rgb c = Some new"
  shows "\<exists>fs' msgs. create_themed_loop c base iconset xs (fs, out) = Inr (fs', out @ msgs)
           \<and> concat (map progress msgs) = []"
proof (induction xs arbitrary: fs out)
  case Nil
  show ?case by simp
next
  case (Cons a xs)
  obtain filename expected where a: "a = (filename, expected)" by (cases a)
  show ?case
  proof (cases "exists_path fs (path_join base filename)")
    case True
    from recolor_icon_ok [OF True assms]
    obtain fs1 where r: "recolor_icon fs (path_join base filename) (path_join iconset filename) c = Inr fs1"
      by blast
    from Cons.IH [of fs1 "out @ [CreatedFile filename]"]
    obtain fs' msgs where "create_themed_loop c base iconset xs (fs1, out @ [CreatedFile filename])
        = Inr (fs', (out @ [CreatedFile filename]) @ msgs)" and "concat (map progress msgs) = []"
      by blast
    then show ?thesis using True r
      by (intro exI [of _ fs'] exI [of _ "CreatedFile filename # msgs"]) (simp add: a)
  next
    case False
    from Cons.IH [of fs "out @ [WarningNotFound filename]"]
    obtain fs' msgs where "create_themed_loop c base iconset xs (fs, out @ [WarningNotFound filename])
        = Inr (fs', (out @ [WarningNotFound filename]) @ msgs)" and "concat (map progress msgs) = []"
      by blast
    then show ?thesis using False
      by (intro exI [of _ fs'] exI [of _ "WarningNotFound filename # msgs"]) (simp add: a)
  qed
qed

lemma convert_iconset_to_icns_failure:
  assumes "iconutil [''iconutil'', ''-c'', ''icns'', p] fs = (Exited rc err, fs1)" and "rc \<noteq> 0"
  shows "convert_iconset_to_icns iconutil p (fs, out) = Inr (None, fs1, out @ [ErrorIcns rc])"
  using assms by (simp add: convert_iconset_to_icns_def run_checked_def)

lemma convert_iconset_to_icns_ok:
  assumes "starts iconutil"
  shows "\<exists>icns fs' r. convert_iconset_to_icns iconutil p (fs, out) = Inr (icns, fs', out @ [r])
           \<and> progress r = [r] \<and> conversion_report r"
proof -
  obtain oc fs1 where t: "iconutil [''iconutil'', ''-c'', ''icns'', p] fs = (oc, fs1)"
    by (cases "iconutil [''iconutil'', ''-c'', ''icns'', p] fs")
  with assms have "oc \<noteq> NotStarted"
    unfolding starts_def by (metis fst_conv)
  then obtain rc err where oc: "oc = Exited rc err" by (cases oc) auto
  show ?thesis
    by (cases "rc = 0") (simp_all add: convert_iconset_to_icns_def run_checked_def t oc Let_def)
qed


lemma themes_loop_ok:
  assumes st: "starts iconutil"
    and cols: "\<forall>(n, c) \<in> set ts. hex_to_rgb c \<noteq> None"
  shows "\<exists>fs' out' results. themes_loop iconutil base outd ts (fs, out) = Inr (fs', out')
     \<and> length results = length ts
     \<and> (\<forall>r \<in> set results. conversion_report r)
     \<and> concat (map progress out')
         = concat (map progress out) @ concat (map2 (\<lambda>(n, c) r. [ThemeHeader n c, r]) ts results)"
  using cols
proof (induction ts arbitrary: fs out)
  case Nil
  show ?case by simp
next
  case (Cons a ts)
  obtain n c where a: "a = (n, c)" by (cases a)
  from Cons.prems a obtain new where col: "hex_to_rgb c = Some new" by auto
  from Cons.prems have rest: "\<forall>(n, c) \<in> set ts. hex_to_rgb c \<noteq> None" by simp
  let ?iconset = "path_join outd (''icon-'' @ n @ ''.iconset'')"
  from create_themed_loop_ok [OF col, of base ?iconset ICON_SIZES fs "out @ [ThemeHeader n c]"]
  obtain fs1 msgs where l: "create_themed_loop c base ?iconset ICON_SIZES (fs, out @ [ThemeHeader n c])
        = Inr (fs1, (out @ [ThemeHeader n c]) @ msgs)"
    and quiet: "concat (map progress msgs) = []"
    by blast
  from convert_iconset_to_icns_ok [OF st, of ?iconset fs1 "(out @ [ThemeHeader n c]) @ msgs"]
  obtain icns fs2 r where cv: "convert_iconset_to_icns iconutil ?iconset
        (fs1, (out @ [ThemeHeader n c]) @ msgs) = Inr (icns, fs2, ((out @ [ThemeHeader n c]) @ msgs) @ [r])"
    and pr: "progress r = [r]" and cr: "conversion_report r"
    by blast
  from Cons.IH [OF rest, of fs2 "((out @ [ThemeHeader n c]) @ msgs) @ [r]"]
  obtain fs' out' results where
      run: "themes_loop iconutil base outd ts (fs2, ((out @ [ThemeHeader n c]) @ msgs) @ [r])
              = Inr (fs', out')"
    and len: "length results = length ts"
    and rep: "\<forall>r \<in> set results. conversion_report r"
    and prog: "concat (map progress out')
         = concat (map progress (((out @ [ThemeHeader n c]) @ msgs) @ [r]))
           @ concat (map2 (\<lambda>(n, c) r. [ThemeHeader n c, r]) ts results)"
    by blast
  have run': "themes_loop iconutil base outd (a # ts) (fs, out) = Inr (fs', out')"
    using l cv run by (simp add: a create_themed_iconset_def Let_def)
  have prog': "concat (map progress out')
         = concat (map progress out)
           @ concat (map2 (\<lambda>(n, c) r. [ThemeHeader n c, r]) (a # ts) (r # results))"
    using prog quiet pr by (simp add: a)
  from run' len rep cr prog' show ?case
    by (intro exI [of _ fs'] exI [of _ out'] exI [of _ "r # results"]) simp
qed

lemma THEMES_parse: "\<forall>(n, c) \<in> set THEMES. hex_to_rgb c \<noteq> None"
  by (simp add: THEMES_def hex_to_rgb_def hex_digit_def)

lemma themed_main_ok:
  assumes "starts iconutil"
  shows "\<exists>fs' out results. themed_main iconutil fs = Inr (fs', out)
     \<and> length results = length THEMES
     \<and> (\<forall>r \<in> set results. conversion_report r)
     \<and> concat (map progress out)
         = concat (map2 (\<lambda>(n, c) r. [ThemeHeader n c, r]) THEMES results)"
proof -
  let ?base = "''/Users/cory.naegle/ArborChat/build''"
  from themes_loop_ok [OF assms THEMES_parse, of "path_join ?base ''icon.iconset''"
      "path_join ?base ''themed-icons''" fs "[Banner]"]
  obtain fs' out' results where
      run: "themes_loop iconutil (path_join ?base ''icon.iconset'') (path_join ?base ''themed-icons'')
              THEMES (fs, [Banner]) = Inr (fs', out')"
    and len: "length results = length THEMES"
    and rep: "\<forall>r \<in> set results. conversion_report r"
    and prog: "concat (map progress out')
         = concat (map progress [Banner])
           @ concat (map2 (\<lambda>(n, c) r. [ThemeHeader n c, r]) THEMES results)"
    by blast
  from run have "themed_main iconutil fs
      = Inr (fs', out' @ [Done (path_join ?base ''themed-icons'')])"
    by (simp add: themed_main_def Let_def)
  with len rep prog show ?thesis
    by (intro exI [of _ fs'] exI [of _ "out' @ [Done (path_join ?base ''themed-icons'')]"]
          exI [of _ results]) simp
qed

lemma specs_loop_ok:
  assumes "\<forall>(s, f) \<in> set specs. s < 2 ^ 53"
  shows "\<exists>fs' msgs. specs_loop lib d specs (fs, out) = Inr (fs', out @ msgs)"
  using assms
proof (induction specs arbitrary: fs out)
  case Nil
  show ?case by simp
next
  case (Cons a specs)
  obtain s f where a: "a = (s, f)" by (cases a)
  from Cons.prems a have s: "s < 2 ^ 53" and rest: "\<forall>(s, f) \<in> set specs. s < 2 ^ 53" by auto
  from create_arbor_icon_result [OF s, of lib "path_join d f" fs out]
  obtain final where c: "create_arbor_icon lib s (path_join d f) (fs, out)
            = Inr (final, save_png fs (path_join d f) final, out @ [CreatedIcon (path_join d f)])"
    by blast
  from Cons.IH [OF rest, of "save_png fs (path_join d f) final" "out @ [CreatedIcon (path_join d f)]"]
  obtain fs' msgs where "specs_loop lib d specs
      (save_png fs (path_join d f) final, out @ [CreatedIcon (path_join d f)])
        = Inr (fs', (out @ [CreatedIcon (path_join d f)]) @ msgs)"
    by blast
  with c show ?case
    by (intro exI [of _ fs'] exI [of _ "CreatedIcon (path_join d f) # msgs"]) (simp add: a)
qed

lemma ico_loop_ok:
  assumes "\<forall>s \<in> set sizes. s < 2 ^ 53"
  shows "\<exists>imgs fs' msgs. ico_loop lib b sizes (ims, fs, out) = (None, ims @ imgs, fs', out @ msgs)
     \<and> length imgs = length sizes
     \<and> (\<forall>p. p \<notin> temp_path b ` set sizes \<longrightarrow> fs' p = fs p)"
  using assms
proof (induction sizes arbitrary: ims fs out)
  case Nil
  show ?case by simp
next
  case (Cons s sizes)
  from Cons.prems have s: "s < 2 ^ 53" and rest: "\<forall>s \<in> set sizes. s < 2 ^ 53" by auto
  let ?p = "temp_path b s"
  from create_arbor_icon_result [OF s, of lib ?p fs out]
  obtain final where c: "create_arbor_icon lib s ?p (fs, out)
            = Inr (final, save_png fs ?p final, out @ [CreatedIcon ?p])"
    by blast
  have o: "open_image (save_png fs ?p final) ?p = Inr final"
    by (simp add: open_image_def save_png_def)
  from Cons.IH [OF rest, of "ims @ [final]" "save_png fs ?p final" "out @ [CreatedIcon ?p]"]
  obtain imgs fs' msgs where
      run: "ico_loop lib b sizes (ims @ [final], save_png fs ?p final, out @ [CreatedIcon ?p])
             = (None, (ims @ [final]) @ imgs, fs', (out @ [CreatedIcon ?p]) @ msgs)"
    and len: "length imgs = length sizes"
    and frame: "\<forall>p. p \<notin> temp_path b ` set sizes \<longrightarrow> fs' p = save_png fs ?p final p"
    by blast
  from c o run len frame show ?case
    by (intro exI [of _ "final # imgs"] exI [of _ fs'] exI [of _ "CreatedIcon ?p # msgs"])
       (simp add: save_png_def)
qed

lemma foldl_unlink:
  "foldl (\<lambda>f s. f(tp s := None)) g xs p = (if p \<in> tp ` set xs then None else g p)"
  by (induction xs arbitrary: g) auto

lemma temp_path_not_icon:
  "path_join b ''icon.ico'' \<noteq> temp_path b s" "path_join b ''icon.png'' \<noteq> temp_path b s"
  by (simp_all add: temp_path_def path_join_inject)

lemma create_ico_ok:
  "\<exists>fs' msgs first. create_ico lib b (fs, out)
       = (fs', out @ msgs @ [IcoCreated (path_join b ''icon.ico'')])
     \<and> fs' (path_join b ''icon.ico'') = Some (ICO first (map (\<lambda>s. (s, s)) ico_sizes))
     \<and> (\<forall>p. p \<noteq> path_join b ''icon.ico'' \<and> p \<notin> temp_path b ` set ico_sizes \<longrightarrow> fs' p = fs p)"
proof -
  have small: "\<forall>s \<in> set ico_sizes. s < 2 ^ 53" by (simp add: ico_sizes_def)
  from ico_loop_ok [OF small, of lib b "[]" fs out]
  obtain imgs fs1 msgs where
      run: "ico_loop lib b ico_sizes ([], fs, out) = (None, imgs, fs1, out @ msgs)"
    and len: "length imgs = length ico_sizes"
    and frame: "\<forall>p. p \<notin> temp_path b ` set ico_sizes \<longrightarrow> fs1 p = fs p"
    by auto
  from len obtain first others where imgs: "imgs = first # others"
    by (cases imgs) (simp_all add: ico_sizes_def)
  let ?ico = "path_join b ''icon.ico''"
  let ?saved = "fs1(?ico \<mapsto> ICO first (map (\<lambda>s. (s, s)) ico_sizes))"
  let ?fs' = "foldl (\<lambda>f sz. f(temp_path b sz := None)) ?saved ico_sizes"
  have res: "create_ico lib b (fs, out) = (?fs', out @ msgs @ [IcoCreated ?ico])"
    by (simp add: create_ico_def run imgs Let_def)
  have nt: "?ico \<notin> temp_path b ` set ico_sizes"
    using temp_path_not_icon(1) by blast
  have ico: "?fs' ?ico = Some (ICO first (map (\<lambda>s. (s, s)) ico_sizes))"
    using nt by (simp add: foldl_unlink)
  have other: "\<forall>p. p \<noteq> ?ico \<and> p \<notin> temp_path b ` set ico_sizes \<longrightarrow> ?fs' p = fs p"
    using frame by (simp add: foldl_unlink)
  from res ico other show ?thesis by blast
qed

lemma synth_main_ok:
  assumes "starts iconutil"
  shows "\<exists>fs' out pre post fs1 rc err fs2 im first.
       synth_main lib iconutil root fs = Inr (fs', out)
     \<and> iconutil [''iconutil'', ''-c'', ''icns'',
                   path_join (path_join root ''build'') ''icon.iconset'', ''-o'',
                   path_join (path_join root ''build'') ''icon.icns''] fs1
         = (Exited rc err, fs2)
     \<and> out = pre @ [if rc = 0 then IcnsCreated (path_join (path_join root ''build'') ''icon.icns'')
                     else IconutilError err,
                    CreatedIcon (path_join (path_join root ''build'') ''icon.png'')]
               @ post @ [IcoCreated (path_join (path_join root ''build'') ''icon.ico''), Complete]
     \<and> fs' (path_join (path_join root ''build'') ''icon.png'') = Some (PNG im)
     \<and> width im = 512 \<and> height im = 512
     \<and> fs' (path_join (path_join root ''build'') ''icon.ico'')
         = Some (ICO first (map (\<lambda>s. (s, s)) ico_sizes))"
proof -
  let ?b = "path_join root ''build''"
  let ?args = "[''iconutil'', ''-c'', ''icns'', path_join ?b ''icon.iconset'', ''-o'',
                path_join ?b ''icon.icns'']"
  let ?png = "path_join ?b ''icon.png''"
  let ?ico = "path_join ?b ''icon.ico''"
  have small: "\<forall>(s, f) \<in> set icon_specs. s < 2 ^ 53" by (simp add: icon_specs_def)
  from specs_loop_ok [OF small, of lib "path_join ?b ''icon.iconset''" fs "[]"]
  obtain fs1 out1 where sp: "specs_loop lib (path_join ?b ''icon.iconset'') icon_specs (fs, [])
       = Inr (fs1, out1)"
    by auto
  obtain oc fs2 where t: "iconutil ?args fs1 = (oc, fs2)" by (cases "iconutil ?args fs1")
  with assms have "oc \<noteq> NotStarted" unfolding starts_def by (metis fst_conv)
  then obtain rc err where oc: "oc = Exited rc err" by (cases oc) auto
  let ?r = "if rc = 0 then IcnsCreated (path_join ?b ''icon.icns'') else IconutilError err"
  have "(512::nat) < 2 ^ 53" by simp
  from create_arbor_icon_result [OF this, of lib ?png fs2 "out1 @ [?r]"]
  obtain im where c: "create_arbor_icon lib 512 ?png (fs2, out1 @ [?r])
       = Inr (im, save_png fs2 ?png im, (out1 @ [?r]) @ [CreatedIcon ?png])"
    and dims: "width im = 512" "height im = 512"
    by blast
  from create_ico_ok [of lib ?b "save_png fs2 ?png im" "(out1 @ [?r]) @ [CreatedIcon ?png]"]
  obtain fs' msgs first where
      ci: "create_ico lib ?b (save_png fs2 ?png im, (out1 @ [?r]) @ [CreatedIcon ?png])
            = (fs', ((out1 @ [?r]) @ [CreatedIcon ?png]) @ msgs @ [IcoCreated ?ico])"
    and ico: "fs' ?ico = Some (ICO first (map (\<lambda>s. (s, s)) ico_sizes))"
    and other: "\<forall>p. p \<noteq> ?ico \<and> p \<notin> temp_path ?b ` set ico_sizes \<longrightarrow>
                  fs' p = save_png fs2 ?png im p"
    by blast
  have "?png \<noteq> ?ico" by (simp add: path_join_inject)
  moreover have "?png \<notin> temp_path ?b ` set ico_sizes"
    using temp_path_not_icon(2) by blast
  ultimately have png: "fs' ?png = Some (PNG im)"
    using other by (simp add: save_png_def)
  have run: "synth_main lib iconutil root fs
      = Inr (fs', out1 @ [?r, CreatedIcon ?png] @ msgs @ [IcoCreated ?ico, Complete])"
    using sp t oc c ci by (simp add: synth_main_def run_captured_def Let_def)
  from run t oc png dims ico show ?thesis
    by (intro exI [of _ fs'] exI [of _ "out1 @ [?r, CreatedIcon ?png] @ msgs @ [IcoCreated ?ico, Complete]"]
          exI [of _ out1] exI [of _ msgs] exI [of _ fs1] exI [of _ rc] exI [of _ err]
          exI [of _ fs2] exI [of _ im] exI [of _ first]) simp
qed

text \<open>
  Claim C6, as amended. Whenever the packaging tool is started and exits with a non-zero
  return code, the failure is reported as a printed line and goes no further. In the theme
  recolorer the conversion gives back \<open>None\<close> after printing the error, and the run
  goes through all nine themes in order, each header followed by the report of its
  conversion, failed or not. In the icon synthesizer the run prints the tool's error
  text, then still exports the 512 by 512 PNG and assembles the ICO, and ends normally.
\<close>

theorem packaging_failure_contained:
  assumes "starts iconutil"
  shows "(\<exists>fs' out results. themed_main iconutil fs = Inr (fs', out)
            \<and> length results = length THEMES
            \<and> (\<forall>r \<in> set results. conversion_report r)
            \<and> concat (map progress out)
                = concat (map2 (\<lambda>(n, c) r. [ThemeHeader n c, r]) THEMES results))
     \<and> (\<forall>p fs0 out0 rc err fs1.
            iconutil [''iconutil'', ''-c'', ''icns'', p] fs0 = (Exited rc err, fs1) \<and> rc \<noteq> 0 \<longrightarrow>
            convert_iconset_to_icns iconutil p (fs0, out0) = Inr (None, fs1, out0 @ [ErrorIcns rc]))
     \<and> (\<exists>fs' out pre post fs1 rc err fs2 im first.
            synth_main lib iconutil root fs = Inr (fs', out)
          \<and> iconutil [''iconutil'', ''-c'', ''icns'',
                        path_join (path_join root ''build'') ''icon.iconset'', ''-o'',
                        path_join (path_join root ''build'') ''icon.icns''] fs1
              = (Exited rc err, fs2)
          \<and> out = pre @ [if rc = 0
                          then IcnsCreated (path_join (path_join root ''build'') ''icon.icns'')
                          else IconutilError err,
                         CreatedIcon (path_join (path_join root ''build'') ''icon.png'')]
                    @ post @ [IcoCreated (path_join (path_join root ''build'') ''icon.ico''), Complete]
          \<and> fs' (path_join (path_join root ''build'') ''icon.png'') = Some (PNG im)
          \<and> width im = 512 \<and> height im = 512
          \<and> fs' (path_join (path_join root ''build'') ''icon.ico'')
              = Some (ICO first (map (\<lambda>s. (s, s)) ico_sizes)))"
proof (intro conjI)
  show "\<exists>fs' out results. themed_main iconutil fs = Inr (fs', out)
            \<and> length results = length THEMES
            \<and> (\<forall>r \<in> set results. conversion_report r)
            \<and> concat (map progress out)
                = concat (map2 (\<lambda>(n, c) r. [ThemeHeader n c, r]) THEMES results)"
    by (rule themed_main_ok [OF assms])
next
  show "\<forall>p fs0 out0 rc err fs1.
            iconutil [''iconutil'', ''-c'', ''icns'', p] fs0 = (Exited rc err, fs1) \<and> rc \<noteq> 0 \<longrightarrow>
            convert_iconset_to_icns iconutil p (fs0, out0) = Inr (None, fs1, out0 @ [ErrorIcns rc])"
    by (auto intro: convert_iconset_to_icns_failure)
next
  show "\<exists>fs' out pre post fs1 rc err fs2 im first.
            synth_main lib iconutil root fs = Inr (fs', out)
          \<and> iconutil [''iconutil'', ''-c'', ''icns'',
                        path_join (path_join root ''build'') ''icon.iconset'', ''-o'',
                        path_join (path_join root ''build'') ''icon.icns''] fs1
              = (Exited rc err, fs2)
          \<and> out = pre @ [if rc = 0
                          then IcnsCreated (path_join (path_join root ''build'') ''icon.icns'')
                          else IconutilError err,
                         CreatedIcon (path_join (path_join root ''build'') ''icon.png'')]
                    @ post @ [IcoCreated (path_join (path_join root ''build'') ''icon.ico''), Complete]
          \<and> fs' (path_join (path_join root ''build'') ''icon.png'') = Some (PNG im)
          \<and> width im = 512 \<and> height im = 512
          \<and> fs' (path_join (path_join root ''build'') ''icon.ico'')
              = Some (ICO first (map (\<lambda>s. (s, s)) ico_sizes))"
    by (rule synth_main_ok [OF assms])
qed

theorem packaging_failure_contained_witness:
  "(\<exists>fs' out. themed_main (failing_tool 1 ''iconutil: failed'') Map.empty = Inr (fs', out))
   \<and> convert_iconset_to_icns (failing_tool 1 ''iconutil: failed'') ''icon-ember.iconset''
        (Map.empty, []) = Inr (None, Map.empty, [ErrorIcns 1])
   \<and> (\<exists>fs' out im. synth_main blank_pil (failing_tool 1 ''iconutil: failed'') ''/repo'' Map.empty
          = Inr (fs', out)
        \<and> IconutilError ''iconutil: failed'' \<in> set out
        \<and> CreatedIcon ''/repo/build/icon.png'' \<in> set out
        \<and> IcoCreated ''/repo/build/icon.ico'' \<in> set out
        \<and> fs' ''/repo/build/icon.png'' = Some (PNG im) \<and> width im = 512 \<and> height im = 512)"
proof -
  let ?t = "failing_tool 1 ''iconutil: failed''"
  have st: "starts ?t" by (simp add: starts_def failing_tool_def)
  note th = packaging_failure_contained [OF st, of Map.empty blank_pil "''/repo''"]
  from th have a: "\<exists>fs' out. themed_main ?t Map.empty = Inr (fs', out)"
    by blast
  have call: "?t [''iconutil'', ''-c'', ''icns'', ''icon-ember.iconset''] Map.empty
      = (Exited 1 ''iconutil: failed'', Map.empty) \<and> (1::int) \<noteq> 0"
    by (simp add: failing_tool_def)
  from th have "\<forall>p fs0 out0 rc err fs1.
            ?t [''iconutil'', ''-c'', ''icns'', p] fs0 = (Exited rc err, fs1) \<and> rc \<noteq> 0 \<longrightarrow>
            convert_iconset_to_icns ?t p (fs0, out0) = Inr (None, fs1, out0 @ [ErrorIcns rc])"
    by blast
  with call have b: "convert_iconset_to_icns ?t ''icon-ember.iconset'' (Map.empty, [])
      = Inr (None, Map.empty, [] @ [ErrorIcns 1])"
    by blast
  from th obtain fs' out pre post fs1 rc err fs2 im where
      run: "synth_main blank_pil ?t ''/repo'' Map.empty = Inr (fs', out)"
    and tool: "?t [''iconutil'', ''-c'', ''icns'',
                        path_join (path_join ''/repo'' ''build'') ''icon.iconset'', ''-o'',
                        path_join (path_join ''/repo'' ''build'') ''icon.icns''] fs1
              = (Exited rc err, fs2)"
    and out: "out = pre @ [if rc = 0
                          then IcnsCreated (path_join (path_join ''/repo'' ''build'') ''icon.icns'')
                          else IconutilError err,
                         CreatedIcon (path_join (path_join ''/repo'' ''build'') ''icon.png'')]
                    @ post @ [IcoCreated (path_join (path_join ''/repo'' ''build'') ''icon.ico''), Complete]"
    and png: "fs' (path_join (path_join ''/repo'' ''build'') ''icon.png'') = Some (PNG im)"
    and dims: "width im = 512" "height im = 512"
    by blast
  from tool have rc: "rc = 1" "err = ''iconutil: failed''"
    by (simp_all add: failing_tool_def)
  from out rc have msgs: "IconutilError ''iconutil: failed'' \<in> set out"
      "CreatedIcon ''/repo/build/icon.png'' \<in> set out"
      "IcoCreated ''/repo/build/icon.ico'' \<in> set out"
    by (simp_all add: path_join_def)
  from png have png': "fs' ''/repo/build/icon.png'' = Some (PNG im)"
    by (simp add: path_join_def)
  from run msgs png' dims have c: "\<exists>fs' out im. synth_main blank_pil ?t ''/repo'' Map.empty
          = Inr (fs', out)
        \<and> IconutilError ''iconutil: failed'' \<in> set out
        \<and> CreatedIcon ''/repo/build/icon.png'' \<in> set out
        \<and> IcoCreated ''/repo/build/icon.ico'' \<in> set out
        \<and> fs' ''/repo/build/icon.png'' = Some (PNG im) \<and> width im = 512 \<and> height im = 512"
    by blast
  from a b c show ?thesis by simp
qed

text \<open>
  The claim as first stated, for every failing invocation, does not cover a tool that
  cannot be started at all (it is not installed): \<open>subprocess.run\<close> then raises an
  \<open>OSError\<close>, which neither the handler for \<open>CalledProcessError\<close> nor the return-code
  check catches, and both scripts stop there.
\<close>

lemma create_themed_loop_missing:
  "\<forall>(f, s) \<in> set xs. \<not> exists_path fs (path_join base f) \<Longrightarrow>
     \<exists>out'. create_themed_loop c base iconset xs (fs, out) = Inr (fs, out')"
  by (induction xs arbitrary: out) (auto simp: Let_def)

theorem packaging_tool_absent_counterexample:
  "themed_main absent_tool Map.empty = Inl OSError
   \<and> synth_main blank_pil absent_tool ''/repo'' Map.empty = Inl OSError"
proof
  let ?base = "path_join ''/Users/cory.naegle/ArborChat/build'' ''icon.iconset''"
  let ?iconset = "path_join (path_join ''/Users/cory.naegle/ArborChat/build'' ''themed-icons'')
                    (''icon-'' @ ''midnight'' @ ''.iconset'')"
  have "\<forall>(f, s) \<in> set ICON_SIZES. \<not> exists_path Map.empty (path_join ?base f)"
    by (simp add: exists_path_def case_prod_beta)
  from create_themed_loop_missing [OF this, of "''#5865f2''" ?iconset
      "[Banner] @ [ThemeHeader ''midnight'' ''#5865f2'']"]
  obtain out' where "create_themed_loop ''#5865f2'' ?base ?iconset ICON_SIZES
      (Map.empty, [Banner] @ [ThemeHeader ''midnight'' ''#5865f2'']) = Inr (Map.empty, out')"
    by blast
  then show "themed_main absent_tool Map.empty = Inl OSError"
    by (simp add: themed_main_def THEMES_def create_themed_iconset_def
        convert_iconset_to_icns_def run_checked_def absent_tool_def Let_def)
next
  have small: "\<forall>(s, f) \<in> set icon_specs. s < 2 ^ 53" by (simp add: icon_specs_def)
  from specs_loop_ok [OF small, of blank_pil
      "path_join (path_join ''/repo'' ''build'') ''icon.iconset''" Map.empty "[]"]
  obtain fs1 out1 where "specs_loop blank_pil
      (path_join (path_join ''/repo'' ''build'') ''icon.iconset'') icon_specs (Map.empty, [])
       = Inr (fs1, out1)"
    by auto
  then show "synth_main blank_pil absent_tool ''/repo'' Map.empty = Inl OSError"
    by (simp add: synth_main_def run_captured_def absent_tool_def Let_def)
qed


end
